theory Spec2Isabelle
  imports Main "HOL-Library.Sublist"
begin

section \<open>Strings and regular expressions\<close>

text \<open>
  A JavaScript string is modelled as a \<^typ>\<open>string\<close>; each \<^typ>\<open>char\<close> stands for one
  code unit below 256. The character classes are those of the regular expressions in
  \<^verbatim>\<open>src/backend/main.js\<close>, restricted to that range: \<^verbatim>\<open>\s\<close> is tab, line feed,
  vertical tab, form feed, carriage return, space and no-break space; \<^verbatim>\<open>\w\<close> is
  \<^verbatim>\<open>[A-Za-z0-9_]\<close>; \<^verbatim>\<open>.\<close> is everything but line feed and carriage return.
\<close>

datatype cclass = Space | Word | Dot | NonSpace | Quote | NonQuote

definition is_space :: "char \<Rightarrow> bool" where
  "is_space c = (let n = (of_char c :: nat) in (9 \<le> n \<and> n \<le> 13) \<or> n = 32 \<or> n = 160)"

definition is_word :: "char \<Rightarrow> bool" where
  "is_word c = (let n = (of_char c :: nat) in
     (97 \<le> n \<and> n \<le> 122) \<or> (65 \<le> n \<and> n \<le> 90) \<or> (48 \<le> n \<and> n \<le> 57) \<or> n = 95)"

definition is_line_terminator :: "char \<Rightarrow> bool" where
  "is_line_terminator c = (let n = (of_char c :: nat) in n = 10 \<or> n = 13)"

definition is_quote :: "char \<Rightarrow> bool" where
  "is_quote c = (let n = (of_char c :: nat) in n = 34 \<or> n = 39)"

fun in_class :: "cclass \<Rightarrow> char \<Rightarrow> bool" where
  "in_class Space c = is_space c"
| "in_class Word c = is_word c"
| "in_class Dot c = (\<not> is_line_terminator c)"
| "in_class NonSpace c = (\<not> is_space c)"
| "in_class Quote c = is_quote c"
| "in_class NonQuote c = (\<not> is_quote c)"

text \<open>
  The fragment of regular expressions the source uses: literals, one character of a class,
  greedy \<^verbatim>\<open>+\<close> and \<^verbatim>\<open>*\<close> over a class, a greedy optional part, sequence and a numbered
  capture group.
\<close>

datatype regex =
    Lit string
  | One cclass
  | Plus cclass
  | Star cclass
  | Opt regex
  | Seq regex regex
  | Group nat regex

type_synonym captures = "nat \<rightharpoonup> string"

text \<open>
  Backtracking is a list of alternatives in the order the engine tries them. A greedy
  repetition offers its longest match first; each alternative is the input that is left.
\<close>

fun star_ends :: "cclass \<Rightarrow> string \<Rightarrow> string list" where
  "star_ends k [] = [[]]"
| "star_ends k (c # s) = (if in_class k c then star_ends k s @ [c # s] else [c # s])"

fun plus_ends :: "cclass \<Rightarrow> string \<Rightarrow> string list" where
  "plus_ends k [] = []"
| "plus_ends k (c # s) = (if in_class k c then star_ends k s else [])"

fun alts :: "regex \<Rightarrow> string \<times> captures \<Rightarrow> (string \<times> captures) list" where
  "alts (Lit l) (s, g) = (if take (length l) s = l then [(drop (length l) s, g)] else [])"
| "alts (One k) (s, g) = (case s of [] \<Rightarrow> [] | c # t \<Rightarrow> if in_class k c then [(t, g)] else [])"
| "alts (Plus k) (s, g) = map (\<lambda>t. (t, g)) (plus_ends k s)"
| "alts (Star k) (s, g) = map (\<lambda>t. (t, g)) (star_ends k s)"
| "alts (Opt r) (s, g) = alts r (s, g) @ [(s, g)]"
| "alts (Seq a b) (s, g) = concat (map (alts b) (alts a (s, g)))"
| "alts (Group i r) (s, g) =
     map (\<lambda>(t, h). (t, h(i \<mapsto> take (length s - length t) s))) (alts r (s, g))"

text \<open>
  \<^verbatim>\<open>regex.exec(text)\<close> on a fresh expression: the first start position, from the left, at
  which the expression matches, with the captures of the first alternative there.
\<close>

fun exec :: "regex \<Rightarrow> string \<Rightarrow> captures option" where
  "exec r [] = (case alts r ([], Map.empty) of [] \<Rightarrow> None | x # _ \<Rightarrow> Some (snd x))"
| "exec r (c # s) =
     (case alts r (c # s, Map.empty) of [] \<Rightarrow> exec r s | x # _ \<Rightarrow> Some (snd x))"

section \<open>The directive parser\<close>

record directive =
  module :: string
  command :: string
  parameters :: string

text \<open>\<^verbatim>\<open>/\/?run\s+module\s+(\w+)\s+(\w+)(?:\s+(.+))?/g\<close>\<close>

definition directive_regex :: regex where
  "directive_regex =
     Seq (Opt (Lit ''/'')) (Seq (Lit ''run'') (Seq (Plus Space) (Seq (Lit ''module'')
       (Seq (Plus Space) (Seq (Group 1 (Plus Word)) (Seq (Plus Space) (Seq (Group 2 (Plus Word))
         (Opt (Seq (Plus Space) (Group 3 (Plus Dot)))))))))))"

text \<open>\<^verbatim>\<open>String.prototype.split\<close> on a one-character separator.\<close>

fun split_on :: "char \<Rightarrow> string \<Rightarrow> string list" where
  "split_on d [] = [[]]"
| "split_on d (c # s) =
     (if c = d then [] # split_on d s
      else case split_on d s of [] \<Rightarrow> [[c]] | p # ps \<Rightarrow> (c # p) # ps)"

text \<open>
  \<^verbatim>\<open>ModuleService.parseModuleCommand\<close>. A capture that did not take part in the match is
  \<^verbatim>\<open>undefined\<close>, here \<^term>\<open>None\<close>; \<^verbatim>\<open>match[3] || ''\<close> reads it as the empty string. Groups 1
  and 2 always take part in a match.
\<close>

definition parseModuleCommand :: "string \<Rightarrow> directive option" where
  "parseModuleCommand text =
     (case exec directive_regex text of
        None \<Rightarrow> None
      | Some g \<Rightarrow>
          (let moduleName = (case g 1 of None \<Rightarrow> [] | Some m \<Rightarrow> m);
               commandName = (case g 2 of None \<Rightarrow> [] | Some c \<Rightarrow> c);
               params = (case g 3 of None \<Rightarrow> [] | Some p \<Rightarrow> if p = [] then [] else p)
           in if CHR ''.'' \<in> set moduleName
              then (case split_on CHR ''.'' moduleName of
                      p0 # p1 # _ \<Rightarrow> Some \<lparr>module = p0, command = p1, parameters = params\<rparr>
                    | _ \<Rightarrow> Some \<lparr>module = moduleName, command = commandName, parameters = params\<rparr>)
              else Some \<lparr>module = moduleName, command = commandName, parameters = params\<rparr>))"


section \<open>The module registry\<close>

text \<open>
  A handler is arbitrary module code. It is modelled by what it does with its parameter:
  it returns a value (or a promise that fulfils with it), or it throws (or returns a promise
  that rejects). JavaScript can throw any value: \<^verbatim>\<open>null\<close>, \<^verbatim>\<open>undefined\<close>, or a value
  that has properties, of which the code reads \<^verbatim>\<open>message\<close>; for an \<^verbatim>\<open>Error\<close> that is its
  text, for a string or a number it is \<^verbatim>\<open>undefined\<close>, here \<^term>\<open>None\<close>.
\<close>

datatype json = JNull | JBool bool | JNum int | JStr string | JArr "json list"
  | JObj "(string \<times> json) list"

datatype thrown = ThrownNull | ThrownUndefined | ThrownValue "string option"

datatype outcome = Returns json | Throws thrown

text \<open>\<^term>\<open>None\<close> as handler: the \<^verbatim>\<open>handler\<close> property is not a function.\<close>

record command_def =
  description :: string
  handler :: "(string \<Rightarrow> outcome) option"

text \<open>
  \<^verbatim>\<open>commands\<close> is the property lookup \<^verbatim>\<open>module.commands[commandName]\<close>. The lookup also
  finds what the object inherits: for a \<^verbatim>\<open>commands\<close> object written as a literal these are
  the properties of \<^verbatim>\<open>Object.prototype\<close>, truthy values without a \<^verbatim>\<open>handler\<close>.
\<close>

record module_def =
  id_m :: string
  name :: string
  capabilities :: "string list"
  commands :: "string \<rightharpoonup> command_def"

definition objectPrototypeProperties :: "string list" where
  "objectPrototypeProperties =
     [''constructor'', ''toString'', ''toLocaleString'', ''valueOf'', ''hasOwnProperty'',
      ''isPrototypeOf'', ''propertyIsEnumerable'', ''__proto__'', ''__defineGetter__'',
      ''__defineSetter__'', ''__lookupGetter__'', ''__lookupSetter__'']"

definition commandsObject :: "(string \<rightharpoonup> command_def) \<Rightarrow> (string \<rightharpoonup> command_def)" where
  "commandsObject own n =
     (case own n of
        Some c \<Rightarrow> Some c
      | None \<Rightarrow> if n \<in> set objectPrototypeProperties
                then Some \<lparr>description = [], handler = None\<rparr> else None)"

text \<open>
  The value \<^verbatim>\<open>runModule\<close> returns: \<^verbatim>\<open>{ success: true, result }\<close> or \<^verbatim>\<open>{ error }\<close>, whose
  \<^verbatim>\<open>error\<close> is a text or \<^verbatim>\<open>undefined\<close>.
\<close>

datatype module_output = ModSuccess json | ModError "string option"

section \<open>Messages, provider requests and the environment\<close>

record chat_message =
  role :: string
  content :: string
  timestamp :: "string option"

datatype provider_request =
    OpenAIChat string "chat_message list"
  | GeminiGenerate string string
  | OllamaChat string "chat_message list"

datatype provider_result = Replied string | Failed string

text \<open>What a request does that is visible outside the process.\<close>

datatype event =
    HandlerCall string string string
  | ProviderCall provider_request

text \<open>
  Everything a request reads from outside: the configuration (\<^verbatim>\<open>process.env\<close>, the
  constant \<^verbatim>\<open>SystemLLMPrompt\<close>), the module directory, the providers, the clock, the random
  generator and the library functions \<^verbatim>\<open>JSON.stringify\<close> and \<^verbatim>\<open>markdown.toHTML\<close>. The
  argument of type \<^typ>\<open>nat\<close> is the ordinal of the call within the request, so that two
  calls may answer differently. \<^verbatim>\<open>typeErrorMessage v p\<close> is the engine's text for the
  \<^verbatim>\<open>TypeError\<close> of reading property \<^verbatim>\<open>p\<close> of \<^verbatim>\<open>v\<close>, which is \<^verbatim>\<open>null\<close> or \<^verbatim>\<open>undefined\<close>.
\<close>

record env =
  defaultService :: string
  openaiApiKey :: "string option"
  geminiApiKey :: "string option"
  openaiMainModel :: "string option"
  geminiMainModel :: "string option"
  ollamaMainModel :: "string option"
  systemPrompt :: string
  loadModule :: "nat \<Rightarrow> string \<Rightarrow> module_def option"
  provider :: "nat \<Rightarrow> provider_request \<Rightarrow> provider_result"
  stringify :: "module_output \<Rightarrow> string"
  stringifyPretty :: "module_output \<Rightarrow> string"
  toHTML :: "string \<Rightarrow> string"
  isoTime :: "nat \<Rightarrow> string"
  dateNow :: nat
  random36 :: string
  typeErrorMessage :: "string \<Rightarrow> string \<Rightarrow> string"

subsection \<open>\<^verbatim>\<open>ModuleService.runModule\<close>\<close>

fun str_includes :: "string \<Rightarrow> string \<Rightarrow> bool" where
  "str_includes [] p = (p = [])"
| "str_includes (c # s) p = (take (length p) (c # s) = p \<or> str_includes s p)"

text \<open>\<^verbatim>\<open>/query\s*=\s*["']([^"']+)["']/\<close> and \<^verbatim>\<open>/query\s*=\s*([^\s]+)/\<close>\<close>

definition query_quoted_regex :: regex where
  "query_quoted_regex =
     Seq (Lit ''query'') (Seq (Star Space) (Seq (Lit ''='') (Seq (Star Space)
       (Seq (One Quote) (Seq (Group 1 (Plus NonQuote)) (One Quote))))))"

definition query_bare_regex :: regex where
  "query_bare_regex =
     Seq (Lit ''query'') (Seq (Star Space) (Seq (Lit ''='') (Seq (Star Space)
       (Group 1 (Plus NonSpace)))))"

definition capture1 :: "captures \<Rightarrow> string" where
  "capture1 g = (case g 1 of None \<Rightarrow> [] | Some v \<Rightarrow> v)"

definition parseParams :: "string \<Rightarrow> string" where
  "parseParams params =
     (if params \<noteq> [] \<and> str_includes params ''query='' then
        (case exec query_quoted_regex params of
           Some g \<Rightarrow> capture1 g
         | None \<Rightarrow>
             (case exec query_bare_regex params of
                Some g \<Rightarrow> capture1 g
              | None \<Rightarrow> params))
      else params)"

definition dq :: string where
  "dq = [CHR 0x22]"

definition commandNotFound :: "string \<Rightarrow> string \<Rightarrow> string" where
  "commandNotFound commandName moduleName =
     ''Command '' @ dq @ commandName @ dq @ '' not found in '' @ dq @ moduleName @ dq"

text \<open>
  The whole body is inside \<^verbatim>\<open>try\<close>; the \<^verbatim>\<open>catch\<close> returns \<^verbatim>\<open>{ error: err.message }\<close>.
  Reading \<^verbatim>\<open>err.message\<close> of a thrown \<^verbatim>\<open>null\<close> or \<^verbatim>\<open>undefined\<close> throws a \<^verbatim>\<open>TypeError\<close>
  inside the \<^verbatim>\<open>catch\<close>, and that exception leaves \<^verbatim>\<open>runModule\<close>: \<^term>\<open>Inl\<close> with its
  message. \<^verbatim>\<open>loadModule\<close> catches its own failures and returns \<^verbatim>\<open>null\<close>. The second
  component lists the handler calls made.
\<close>

definition runModule ::
  "env \<Rightarrow> nat \<Rightarrow> string \<Rightarrow> string \<Rightarrow> string \<Rightarrow> (string + module_output) \<times> event list" where
  "runModule e k moduleName commandName params =
     (case loadModule e k moduleName of
        None \<Rightarrow> (Inr (ModError (Some (commandNotFound commandName moduleName))), [])
      | Some m \<Rightarrow>
          (case commands m commandName of
             None \<Rightarrow> (Inr (ModError (Some (commandNotFound commandName moduleName))), [])
           | Some c \<Rightarrow>
               (case handler c of
                  None \<Rightarrow> (Inr (ModError (Some ''Handler is not a function'')), [])
                | Some h \<Rightarrow>
                    (let parsedParams = parseParams params
                     in (case h parsedParams of
                           Returns v \<Rightarrow> Inr (ModSuccess v)
                         | Throws ThrownNull \<Rightarrow> Inl (typeErrorMessage e ''null'' ''message'')
                         | Throws ThrownUndefined \<Rightarrow>
                             Inl (typeErrorMessage e ''undefined'' ''message'')
                         | Throws (ThrownValue msg) \<Rightarrow> Inr (ModError msg),
                         [HandlerCall moduleName commandName parsedParams])))))"

section \<open>The backend adapters\<close>

definition slice_last10 :: "'a list \<Rightarrow> 'a list" where
  "slice_last10 history = drop (length history - 10) history"

definition nl :: string where
  "nl = [CHR 0x0A]"

fun join :: "string \<Rightarrow> string list \<Rightarrow> string" where
  "join sep [] = []"
| "join sep [x] = x"
| "join sep (x # y # ys) = x @ sep @ join sep (y # ys)"

definition plain :: "string \<Rightarrow> string \<Rightarrow> chat_message" where
  "plain r c = \<lparr>role = r, content = c, timestamp = None\<rparr>"

definition moduleOutputMessages :: "env \<Rightarrow> module_output option \<Rightarrow> chat_message list" where
  "moduleOutputMessages e moduleOutput =
     (case moduleOutput of
        None \<Rightarrow> []
      | Some out \<Rightarrow>
          [plain ''system'' (''Module execution result: '' @ stringify e out),
           plain ''user'' ''Please respond to the user with the module execution result.''])"

text \<open>The text prompt that \<^verbatim>\<open>getGeminiResponse\<close> and \<^verbatim>\<open>getOllamaResponse\<close> build.\<close>

definition fullPrompt ::
  "env \<Rightarrow> string \<Rightarrow> string \<Rightarrow> module_output option \<Rightarrow> chat_message list \<Rightarrow> string" where
  "fullPrompt e prompt sys moduleOutput history =
     sys
     @ (if length history > 0
        then nl @ nl @ ''Chat History:'' @ nl
             @ join nl (map (\<lambda>msg. role msg @ '': '' @ content msg) (slice_last10 history))
        else [])
     @ nl @ nl @ ''User: '' @ prompt
     @ (case moduleOutput of
          None \<Rightarrow> []
        | Some out \<Rightarrow> nl @ nl @ ''Module execution result: '' @ stringify e out @ nl @ nl
            @ ''Please respond to the user with the module execution result.'')"

definition keyMissing :: "string option \<Rightarrow> string \<Rightarrow> bool" where
  "keyMissing key placeholder = (case key of None \<Rightarrow> True | Some v \<Rightarrow> v = [] \<or> v = placeholder)"

definition orDefault :: "string option \<Rightarrow> string \<Rightarrow> string" where
  "orDefault v d = (case v of None \<Rightarrow> d | Some x \<Rightarrow> if x = [] then d else x)"

definition openAIRequest ::
  "env \<Rightarrow> string \<Rightarrow> string \<Rightarrow> module_output option \<Rightarrow> chat_message list \<Rightarrow> provider_request" where
  "openAIRequest e prompt sys moduleOutput history =
     OpenAIChat (orDefault (openaiMainModel e) ''gpt-4o-mini'')
       ([plain ''system'' sys]
        @ (if length history > 0 then slice_last10 history else [])
        @ [plain ''user'' prompt]
        @ moduleOutputMessages e moduleOutput)"

definition getOpenAIResponse ::
  "env \<Rightarrow> nat \<Rightarrow> string \<Rightarrow> string \<Rightarrow> module_output option \<Rightarrow> chat_message list
     \<Rightarrow> string \<times> event list" where
  "getOpenAIResponse e k prompt sys moduleOutput history =
     (if keyMissing (openaiApiKey e) ''your_openai_api_key_here''
      then (''Error: OpenAI API key is not configured. Please set a valid OPENAI_API_KEY in .ENV file.'', [])
      else
        (let req = openAIRequest e prompt sys moduleOutput history
         in (case provider e k req of
               Replied txt \<Rightarrow> txt
             | Failed msg \<Rightarrow> ''Error: OpenAI API call failed - '' @ msg
                 @ ''. Please check your API key configuration.'',
             [ProviderCall req])))"

definition geminiRequest ::
  "env \<Rightarrow> string \<Rightarrow> string \<Rightarrow> module_output option \<Rightarrow> chat_message list \<Rightarrow> provider_request" where
  "geminiRequest e prompt sys moduleOutput history =
     GeminiGenerate (orDefault (geminiMainModel e) ''gemini-2.0-flash-exp'')
       (fullPrompt e prompt sys moduleOutput history)"

definition getGeminiResponse ::
  "env \<Rightarrow> nat \<Rightarrow> string \<Rightarrow> string \<Rightarrow> module_output option \<Rightarrow> chat_message list
     \<Rightarrow> string \<times> event list" where
  "getGeminiResponse e k prompt sys moduleOutput history =
     (if keyMissing (geminiApiKey e) ''your_gemini_api_key_here''
      then (''Error: Gemini API key is not configured. Please set a valid GEMINI_API_KEY in .ENV file.'', [])
      else
        (let req = geminiRequest e prompt sys moduleOutput history
         in (case provider e k req of
               Replied txt \<Rightarrow> txt
             | Failed msg \<Rightarrow> ''Error: Gemini API call failed - '' @ msg
                 @ ''. Please check your API key configuration.'',
             [ProviderCall req])))"

text \<open>
  \<^verbatim>\<open>getOllamaResponse\<close> builds \<^verbatim>\<open>fullPrompt\<close>, history included, and then passes
  \<^verbatim>\<open>ollama.chat\<close> a message list made of the system prompt, the prompt and the module
  output only: \<^verbatim>\<open>fullPrompt\<close> is not part of the request.
\<close>

definition ollamaRequest ::
  "env \<Rightarrow> string \<Rightarrow> string \<Rightarrow> module_output option \<Rightarrow> chat_message list \<Rightarrow> provider_request" where
  "ollamaRequest e prompt sys moduleOutput history =
     (let unusedFullPrompt = fullPrompt e prompt sys moduleOutput history
      in OllamaChat (orDefault (ollamaMainModel e) ''llama2'')
           ([plain ''system'' sys, plain ''user'' prompt] @ moduleOutputMessages e moduleOutput))"

definition getOllamaResponse ::
  "env \<Rightarrow> nat \<Rightarrow> string \<Rightarrow> string \<Rightarrow> module_output option \<Rightarrow> chat_message list
     \<Rightarrow> string \<times> event list" where
  "getOllamaResponse e k prompt sys moduleOutput history =
     (let req = ollamaRequest e prompt sys moduleOutput history
      in (case provider e k req of
            Replied txt \<Rightarrow> txt
          | Failed msg \<Rightarrow> ''Error: Ollama API call failed - '' @ msg
              @ ''. Please check if Ollama is running and the model is available.'',
          [ProviderCall req]))"

text \<open>
  \<^verbatim>\<open>AIService.getResponse\<close>: \<^term>\<open>Inl\<close> is the \<^verbatim>\<open>Error\<close> it throws on an empty prompt.
\<close>

definition getResponse ::
  "env \<Rightarrow> nat \<Rightarrow> string \<Rightarrow> string \<Rightarrow> module_output option \<Rightarrow> chat_message list
     \<Rightarrow> (string + string) \<times> event list" where
  "getResponse e k prompt sys moduleOutput history =
     (if prompt = [] then (Inl ''Prompt is required'', [])
      else if defaultService e = ''openai''
        then (case getOpenAIResponse e k prompt sys moduleOutput history of (t, ev) \<Rightarrow> (Inr t, ev))
      else if defaultService e = ''gemini''
        then (case getGeminiResponse e k prompt sys moduleOutput history of (t, ev) \<Rightarrow> (Inr t, ev))
      else if defaultService e = ''ollama''
        then (case getOllamaResponse e k prompt sys moduleOutput history of (t, ev) \<Rightarrow> (Inr t, ev))
      else (Inr (''Error: Unknown LLM service '' @ dq @ defaultService e @ dq
                 @ ''. Available: openai, gemini, ollama''), []))"


section \<open>The approval orchestrator\<close>

text \<open>
  An entry of \<^verbatim>\<open>pendingModuleRequests\<close>: the directive with the prompt, the model text that
  proposed it, the results accumulated so far and the session.
\<close>

record pending_request = directive +
  originalPrompt :: string
  aiResponse :: string
  allModuleOutputs :: "(string \<times> string \<times> module_output) list"
  originalSessionId :: string

record state =
  pendingModuleRequests :: "string \<rightharpoonup> pending_request"
  chatHistory :: "string \<rightharpoonup> chat_message list"

definition initial_state :: state where
  "initial_state = \<lparr>pendingModuleRequests = Map.empty, chatHistory = Map.empty\<rparr>"

text \<open>
  The bodies of the two requests. A field that is absent, or present and falsy, is the empty
  string for \<^verbatim>\<open>userprompt\<close>, \<^verbatim>\<open>typoftask\<close> and \<^verbatim>\<open>requestId\<close> and \<^term>\<open>False\<close> for
  \<^verbatim>\<open>approved\<close>; \<^verbatim>\<open>sessionId\<close> takes its default only when absent.
\<close>

record message_request =
  userprompt :: string
  typoftask :: string
  sessionId :: "string option"

record approve_request =
  requestId :: string
  approved :: bool

text \<open>The shapes of object passed to \<^verbatim>\<open>res.json\<close>, one constructor for each.\<close>

datatype response =
    Failure (message: string)
  | DirectCommandResult (message: string) (moduleResult: module_output)
      (history: "chat_message list")
  | RequiresApproval (approvalId: string) (targetModule: string) (targetCommand: string)
      (previousResult: "string option") (message: string)
  | FinalResponse (message: string) (finalModuleResult: "module_output option")
      (finalHistory: "chat_message list option")
  | Denied (message: string)

definition success :: "response \<Rightarrow> bool" where
  "success r = (case r of Failure _ \<Rightarrow> False | _ \<Rightarrow> True)"

definition requiresApproval :: "response \<Rightarrow> bool" where
  "requiresApproval r = (case r of RequiresApproval _ _ _ _ _ \<Rightarrow> True | _ \<Rightarrow> False)"

definition denied :: "response \<Rightarrow> bool" where
  "denied r = (case r of Denied _ \<Rightarrow> True | _ \<Rightarrow> False)"

text \<open>\<^verbatim>\<open>Date.now().toString() + Math.random().toString(36).substr(2, 9)\<close>\<close>

fun decimal :: "nat \<Rightarrow> string" where
  "decimal n =
     (if n < 10 then [''0123456789'' ! n]
      else decimal (n div 10) @ [''0123456789'' ! (n mod 10)])"

declare decimal.simps [simp del]

definition newRequestId :: "env \<Rightarrow> string" where
  "newRequestId e = decimal (dateNow e) @ random36 e"

definition stamped :: "env \<Rightarrow> nat \<Rightarrow> string \<Rightarrow> string \<Rightarrow> chat_message" where
  "stamped e k r c = \<lparr>role = r, content = c, timestamp = Some (isoTime e k)\<rparr>"

definition sq :: string where
  "sq = [CHR 0x27]"

definition continuationPrompt ::
  "env \<Rightarrow> string \<Rightarrow> string \<Rightarrow> string \<Rightarrow> module_output \<Rightarrow> string" where
  "continuationPrompt e original m c out =
     ''Original user request: '' @ dq @ original @ dq @ ''. '' @ nl
     @ ''Module execution result for '' @ m @ ''.'' @ c @ '': '' @ stringify e out @ ''.'' @ nl
     @ ''Based on this result, please provide a complete response to the user'' @ sq
     @ ''s original request. Only execute another module if the result is insufficient to answer the user''
     @ sq @ ''s question. If you need to execute more modules, use the /run module syntax again.''"

definition getHistory :: "state \<Rightarrow> string \<Rightarrow> chat_message list" where
  "getHistory st sid = (case chatHistory st sid of None \<Rightarrow> [] | Some h \<Rightarrow> h)"

definition setHistory :: "state \<Rightarrow> string \<Rightarrow> chat_message list \<Rightarrow> state" where
  "setHistory st sid h = st\<lparr>chatHistory := (chatHistory st)(sid \<mapsto> h)\<rparr>"

definition setPending :: "state \<Rightarrow> string \<Rightarrow> pending_request \<Rightarrow> state" where
  "setPending st rid p = st\<lparr>pendingModuleRequests := (pendingModuleRequests st)(rid \<mapsto> p)\<rparr>"

definition deletePending :: "state \<Rightarrow> string \<Rightarrow> state" where
  "deletePending st rid = st\<lparr>pendingModuleRequests := (pendingModuleRequests st)(rid := None)\<rparr>"

definition mkPending ::
  "directive \<Rightarrow> string \<Rightarrow> string \<Rightarrow> (string \<times> string \<times> module_output) list \<Rightarrow> string
     \<Rightarrow> pending_request" where
  "mkPending d prompt response outputs sid =
     \<lparr>module = module d, command = command d, parameters = parameters d,
      originalPrompt = prompt, aiResponse = response, allModuleOutputs = outputs,
      originalSessionId = sid\<rparr>"

text \<open>\<^verbatim>\<open>GET /history/:sessionId\<close> and \<^verbatim>\<open>POST /clear-history\<close>\<close>

definition handleHistory :: "state \<Rightarrow> string \<Rightarrow> chat_message list" where
  "handleHistory st sid = getHistory st sid"

definition handleClearHistory :: "state \<Rightarrow> string option \<Rightarrow> state" where
  "handleClearHistory st sid =
     st\<lparr>chatHistory := (chatHistory st)((case sid of None \<Rightarrow> ''default'' | Some s \<Rightarrow> s) := None)\<rparr>"

subsection \<open>\<^verbatim>\<open>POST /message\<close>\<close>

text \<open>
  The continuation after the auto-approved \<^verbatim>\<open>list\<close> module, inside the \<^verbatim>\<open>llm\<close> case:
  the module runs, the model is asked again, and a directive in its answer of whatever
  module is stored for approval. An exception that leaves \<^verbatim>\<open>runModule\<close> or
  \<^verbatim>\<open>getResponse\<close> is reported by the inner \<^verbatim>\<open>catch\<close>.
\<close>

definition messageListContinuation ::
  "env \<Rightarrow> state \<Rightarrow> string \<Rightarrow> string \<Rightarrow> directive \<Rightarrow> event list
     \<Rightarrow> response \<times> state \<times> event list" where
  "messageListContinuation e st sid prompt moduleCommand ev0 =
     (case runModule e 0 (module moduleCommand) (command moduleCommand) (parameters moduleCommand) of
        (Inl err, ev1) \<Rightarrow>
          (Failure (''List module execution failed: '' @ err), st, ev0 @ ev1)
      | (Inr moduleOutput, ev1) \<Rightarrow>
          (let nextPrompt = continuationPrompt e prompt (module moduleCommand)
                              (command moduleCommand) moduleOutput
           in (case getResponse e 1 nextPrompt (systemPrompt e) None (getHistory st sid) of
                 (Inl err, ev2) \<Rightarrow>
                   (Failure (''List module execution failed: '' @ err), st, ev0 @ ev1 @ ev2)
               | (Inr finalResponse, ev2) \<Rightarrow>
                   (case parseModuleCommand finalResponse of
                      Some nextModuleCommand \<Rightarrow>
                        (RequiresApproval (newRequestId e) (module nextModuleCommand)
                           (command nextModuleCommand) (Some (toHTML e finalResponse))
                           ''AI requests permission to execute another module.'',
                         setPending st (newRequestId e)
                           (mkPending nextModuleCommand prompt finalResponse
                              [(module moduleCommand, command moduleCommand, moduleOutput)] sid),
                         ev0 @ ev1 @ ev2)
                    | None \<Rightarrow>
                        (let h = getHistory st sid @ [stamped e 1 ''assistant'' finalResponse]
                         in (FinalResponse (toHTML e finalResponse) (Some moduleOutput) (Some h),
                             setHistory st sid h, ev0 @ ev1 @ ev2))))))"

text \<open>The \<^verbatim>\<open>llm\<close> case of the \<^verbatim>\<open>switch\<close>; \<^term>\<open>st\<close> already holds the user message.\<close>

definition messageLLM ::
  "env \<Rightarrow> state \<Rightarrow> string \<Rightarrow> string \<Rightarrow> response \<times> state \<times> event list" where
  "messageLLM e st sid prompt =
     (case getResponse e 0 prompt (systemPrompt e) None (getHistory st sid) of
        (Inl err, ev0) \<Rightarrow>
          (Failure (if err = [] then ''Internal Server Error'' else err), st, ev0)
      | (Inr response, ev0) \<Rightarrow>
          (case parseModuleCommand response of
             Some moduleCommand \<Rightarrow>
               (if module moduleCommand = ''list''
                then messageListContinuation e st sid prompt moduleCommand ev0
                else
                  (RequiresApproval (newRequestId e) (module moduleCommand) (command moduleCommand)
                     None ''AI requests permission to execute a module. Please approve or deny.'',
                   setPending st (newRequestId e) (mkPending moduleCommand prompt response [] sid),
                   ev0))
           | None \<Rightarrow>
               (let h = getHistory st sid @ [stamped e 1 ''assistant'' response]
                in (FinalResponse (toHTML e response) None (Some h), setHistory st sid h, ev0))))"

definition directMessage :: "env \<Rightarrow> module_output \<Rightarrow> string" where
  "directMessage e moduleOutput =
     ''<strong>Direct Command Result:</strong><br><pre>'' @ stringifyPretty e moduleOutput
     @ ''</pre>''"

definition directContent :: "env \<Rightarrow> directive \<Rightarrow> module_output \<Rightarrow> string" where
  "directContent e d moduleOutput =
     ''Direct command executed: '' @ module d @ ''.'' @ command d @ nl @ ''Result: ''
     @ stringifyPretty e moduleOutput"

text \<open>\<^verbatim>\<open>const { userprompt, typoftask, sessionId = 'default' } = req.body\<close>\<close>

definition sessionOf :: "message_request \<Rightarrow> string" where
  "sessionOf req = (case sessionId req of None \<Rightarrow> ''default'' | Some s \<Rightarrow> s)"

definition handleMessage ::
  "env \<Rightarrow> state \<Rightarrow> message_request \<Rightarrow> response \<times> state \<times> event list" where
  "handleMessage e st req =
     (if userprompt req = [] \<or> typoftask req = [] then (Failure ''Missing Fields'', st, [])
      else
        (let sid = sessionOf req;
             st0 = (if chatHistory st sid = None then setHistory st sid [] else st)
         in (case parseModuleCommand (userprompt req) of
               Some directCommand \<Rightarrow>
                 (case runModule e 0 (module directCommand) (command directCommand)
                         (parameters directCommand) of
                    (Inl err, ev) \<Rightarrow>
                      (Failure (''Direct command execution failed: '' @ err), st0, ev)
                  | (Inr moduleOutput, ev) \<Rightarrow>
                      (let h = getHistory st0 sid
                                 @ [stamped e 0 ''user'' (userprompt req),
                                    stamped e 1 ''assistant''
                                      (directContent e directCommand moduleOutput)]
                       in (DirectCommandResult (directMessage e moduleOutput) moduleOutput h,
                           setHistory st0 sid h, ev)))
             | None \<Rightarrow>
                 (let st1 = setHistory st0 sid
                              (getHistory st0 sid @ [stamped e 0 ''user'' (userprompt req)])
                  in if typoftask req = ''llm'' then messageLLM e st1 sid (userprompt req)
                     else (Failure ''Unknown task type'', st1, [])))))"

subsection \<open>\<^verbatim>\<open>POST /approve-module\<close>\<close>

text \<open>
  The continuation after an auto-approved \<^verbatim>\<open>list\<close> module in the approval flow. Its final
  response is returned without a push to the session's history.
\<close>

definition approveListContinuation ::
  "env \<Rightarrow> state \<Rightarrow> pending_request \<Rightarrow> (string \<times> string \<times> module_output) list \<Rightarrow> directive
     \<Rightarrow> event list \<Rightarrow> response \<times> state \<times> event list" where
  "approveListContinuation e st p updatedModuleOutputs nextModuleCommand ev0 =
     (case runModule e 1 (module nextModuleCommand) (command nextModuleCommand)
             (parameters nextModuleCommand) of
        (Inl err, ev1) \<Rightarrow>
          (Failure (''List module execution failed: '' @ err), st, ev0 @ ev1)
      | (Inr listModuleOutput, ev1) \<Rightarrow>
          (let newUpdatedModuleOutputs = updatedModuleOutputs
                 @ [(module nextModuleCommand, command nextModuleCommand, listModuleOutput)];
               nextPrompt = continuationPrompt e (originalPrompt p) (module nextModuleCommand)
                              (command nextModuleCommand) listModuleOutput
           in (case getResponse e 1 nextPrompt (systemPrompt e) None
                      (getHistory st (originalSessionId p)) of
                 (Inl err, ev2) \<Rightarrow>
                   (Failure (''List module execution failed: '' @ err), st, ev0 @ ev1 @ ev2)
               | (Inr nextFinalResponse, ev2) \<Rightarrow>
                   (case parseModuleCommand nextFinalResponse of
                      Some yetAnotherModuleCommand \<Rightarrow>
                        (RequiresApproval (newRequestId e) (module yetAnotherModuleCommand)
                           (command yetAnotherModuleCommand) (Some (toHTML e nextFinalResponse))
                           ''AI requests permission to execute another module.'',
                         setPending st (newRequestId e)
                           (mkPending yetAnotherModuleCommand (originalPrompt p) nextFinalResponse
                              newUpdatedModuleOutputs (originalSessionId p)),
                         ev0 @ ev1 @ ev2)
                    | None \<Rightarrow>
                        (FinalResponse (toHTML e nextFinalResponse) (Some listModuleOutput) None,
                         st, ev0 @ ev1 @ ev2)))))"

text \<open>
  The approved branch; \<^term>\<open>st\<close> no longer holds the request. The session is looked up under
  \<^verbatim>\<open>originalSessionId || 'default'\<close>; when \<^verbatim>\<open>POST /clear-history\<close> has removed it, the
  \<^verbatim>\<open>push\<close> on \<^verbatim>\<open>undefined\<close> throws a \<^verbatim>\<open>TypeError\<close>, which the \<^verbatim>\<open>catch\<close> reports, as
  it reports an exception that leaves \<^verbatim>\<open>runModule\<close> or \<^verbatim>\<open>getResponse\<close>.
\<close>

definition approvalSession :: "pending_request \<Rightarrow> string" where
  "approvalSession p = (if originalSessionId p = [] then ''default'' else originalSessionId p)"

definition approveExecute ::
  "env \<Rightarrow> state \<Rightarrow> pending_request \<Rightarrow> response \<times> state \<times> event list" where
  "approveExecute e st p =
     (case runModule e 0 (module p) (command p) (parameters p) of
        (Inl err, ev0) \<Rightarrow> (Failure (''Module execution failed: '' @ err), st, ev0)
      | (Inr moduleOutput, ev0) \<Rightarrow>
          (let updatedModuleOutputs = allModuleOutputs p @ [(module p, command p, moduleOutput)];
               nextPrompt = continuationPrompt e (originalPrompt p) (module p) (command p)
                              moduleOutput;
               sid = approvalSession p
           in (case getResponse e 0 nextPrompt (systemPrompt e) None (getHistory st sid) of
                 (Inl err, ev1) \<Rightarrow>
                   (Failure (''Module execution failed: '' @ err), st, ev0 @ ev1)
               | (Inr finalResponse, ev1) \<Rightarrow>
                   (case parseModuleCommand finalResponse of
                      Some nextModuleCommand \<Rightarrow>
                        (if module nextModuleCommand = ''list''
                         then approveListContinuation e st p updatedModuleOutputs
                                nextModuleCommand (ev0 @ ev1)
                         else
                           (RequiresApproval (newRequestId e) (module nextModuleCommand)
                              (command nextModuleCommand) (Some (toHTML e finalResponse))
                              ''AI requests permission to execute another module.'',
                            setPending st (newRequestId e)
                              (mkPending nextModuleCommand (originalPrompt p) finalResponse
                                 updatedModuleOutputs (originalSessionId p)),
                            ev0 @ ev1))
                    | None \<Rightarrow>
                        (case chatHistory st sid of
                           None \<Rightarrow>
                             (Failure (''Module execution failed: ''
                                @ typeErrorMessage e ''undefined'' ''push''), st,
                              ev0 @ ev1)
                         | Some h0 \<Rightarrow>
                             (let h = h0 @ [stamped e 0 ''assistant'' finalResponse]
                              in (FinalResponse (toHTML e finalResponse) (Some moduleOutput)
                                    (Some h),
                                  setHistory st sid h, ev0 @ ev1)))))))"

definition handleApprove ::
  "env \<Rightarrow> state \<Rightarrow> approve_request \<Rightarrow> response \<times> state \<times> event list" where
  "handleApprove e st req =
     (if requestId req = [] then (Failure ''Missing request ID'', st, [])
      else
        (case pendingModuleRequests st (requestId req) of
           None \<Rightarrow> (Failure ''Request not found or expired'', st, [])
         | Some pendingRequest \<Rightarrow>
             (let st1 = deletePending st (requestId req)
              in if \<not> approved req
                 then (Denied ''Module execution denied by user.'', st1, [])
                 else approveExecute e st1 pendingRequest)))"

text \<open>The three parts of what a handler yields.\<close>

definition response_of :: "response \<times> state \<times> event list \<Rightarrow> response" where
  "response_of x = fst x"

definition state_of :: "response \<times> state \<times> event list \<Rightarrow> state" where
  "state_of x = fst (snd x)"

definition events_of :: "response \<times> state \<times> event list \<Rightarrow> event list" where
  "events_of x = snd (snd x)"

text \<open>
  Every key of the pending table is produced by \<^const>\<open>newRequestId\<close> and so begins with a
  decimal digit; in particular it is never the empty string.
\<close>

definition wf_state :: "state \<Rightarrow> bool" where
  "wf_state st = ([] \<notin> dom (pendingModuleRequests st))"

section \<open>The parser in the specification's words\<close>

text \<open>
  The specification (section 4.2) describes the parser by a grammar of whitespace-separated
  tokens: \<^verbatim>\<open>["/"] "run" "module" <module-token> <command-token> [<parameters...>]\<close>, the first
  match in the text; a module token that contains a dot is split into module and command
  instead of reading the next token as the command; \<^verbatim>\<open>null\<close> if there is no match. The
  definitions of this section follow these words, not the code: a token is a longest run of
  characters that are not whitespace, and the parameters are the text after the whitespace
  that follows the last token read.
\<close>

definition spec_next_token :: "string \<Rightarrow> string \<times> string" where
  "spec_next_token s =
     (let t = dropWhile is_space s
      in (takeWhile (\<lambda>c. \<not> is_space c) t, dropWhile (\<lambda>c. \<not> is_space c) t))"

text \<open>The suffixes of the text that begin a token; the flag says that a token may begin.\<close>

fun spec_token_starts :: "bool \<Rightarrow> string \<Rightarrow> string list" where
  "spec_token_starts b [] = []"
| "spec_token_starts b (c # s) =
     (if is_space c then spec_token_starts True s
      else (if b then [c # s] else []) @ spec_token_starts False s)"

definition spec_match :: "string \<Rightarrow> directive option" where
  "spec_match s =
     (case spec_next_token s of (t1, r1) \<Rightarrow>
      case spec_next_token r1 of (t2, r2) \<Rightarrow>
      case spec_next_token r2 of (t3, r3) \<Rightarrow>
        if (t1 = ''run'' \<or> t1 = ''/run'') \<and> t2 = ''module'' \<and> t3 \<noteq> [] then
          if CHR ''.'' \<in> set t3
          then Some \<lparr>module = takeWhile (\<lambda>c. c \<noteq> CHR ''.'') t3,
                      command = drop 1 (dropWhile (\<lambda>c. c \<noteq> CHR ''.'') t3),
                      parameters = dropWhile is_space r3\<rparr>
          else (case spec_next_token r3 of (t4, r4) \<Rightarrow>
                  if t4 \<noteq> []
                  then Some \<lparr>module = t3, command = t4, parameters = dropWhile is_space r4\<rparr>
                  else None)
        else None)"

fun first_some :: "('a \<Rightarrow> 'b option) \<Rightarrow> 'a list \<Rightarrow> 'b option" where
  "first_some f [] = None"
| "first_some f (x # xs) = (case f x of None \<Rightarrow> first_some f xs | Some y \<Rightarrow> Some y)"

definition spec_parse :: "string \<Rightarrow> directive option" where
  "spec_parse s = first_some spec_match (spec_token_starts True s)"

section \<open>The grammar the parser implements\<close>

text \<open>
  The grammar of \<^const>\<open>directive_regex\<close>, said without the expression: an optional slash,
  \<^verbatim>\<open>run\<close>, whitespace, \<^verbatim>\<open>module\<close>, whitespace, the module, whitespace, the command and the
  text that is left. Module and command are non-empty runs of word characters; the command
  ends where the next character is not a word character, and the module is followed by
  whitespace. Nothing is asked of what is before \<^verbatim>\<open>run\<close>.
\<close>

definition spaces :: "string \<Rightarrow> bool" where
  "spaces w = (w \<noteq> [] \<and> (\<forall>c \<in> set w. is_space c))"

definition word_token :: "string \<Rightarrow> bool" where
  "word_token t = (t \<noteq> [] \<and> (\<forall>c \<in> set t. is_word c))"

definition starts :: "(char \<Rightarrow> bool) \<Rightarrow> string \<Rightarrow> bool" where
  "starts P s = (case s of [] \<Rightarrow> False | c # _ \<Rightarrow> P c)"

text \<open>
  The parameters in the text \<open>rest\<close> left after the command. When \<open>rest\<close> begins with
  whitespace that is followed by a character of a line (one that is no line terminator), the
  parameters begin after the longest such whitespace and go to the end of that line.
  Otherwise they are empty.
\<close>

definition parameters_after :: "string \<Rightarrow> string \<Rightarrow> bool" where
  "parameters_after rest ps =
     (if \<exists>w c r. rest = w @ c # r \<and> spaces w \<and> \<not> is_line_terminator c
      then \<exists>w r. rest = w @ ps @ r \<and> spaces w \<and> ps \<noteq> []
             \<and> (\<forall>c \<in> set ps. \<not> is_line_terminator c)
             \<and> \<not> starts (\<lambda>c. \<not> is_line_terminator c) r
             \<and> (\<forall>w' c' r'. rest = w' @ c' # r' \<and> spaces w' \<and> \<not> is_line_terminator c'
                    \<longrightarrow> length w' \<le> length w)
      else ps = [])"

definition directive_at :: "string \<Rightarrow> directive \<Rightarrow> bool" where
  "directive_at s d =
     (\<exists>slash w1 w2 w3 rest.
        s = slash @ ''run'' @ w1 @ ''module'' @ w2 @ module d @ w3 @ command d @ rest
        \<and> (slash = [] \<or> slash = ''/'')
        \<and> spaces w1 \<and> spaces w2 \<and> spaces w3
        \<and> word_token (module d) \<and> word_token (command d)
        \<and> \<not> starts is_word rest
        \<and> parameters_after rest (parameters d))"

text \<open>
  The dotted spelling: \<^verbatim>\<open>run module\<close> followed by a run of word characters and a dot. The
  branch of \<^verbatim>\<open>parseModuleCommand\<close> written for it cannot run.
\<close>

definition dotted_at :: "string \<Rightarrow> bool" where
  "dotted_at s =
     (\<exists>slash w1 w2 m rest.
        s = slash @ ''run'' @ w1 @ ''module'' @ w2 @ m @ ''.'' @ rest
        \<and> (slash = [] \<or> slash = ''/'')
        \<and> spaces w1 \<and> spaces w2 \<and> word_token m)"

definition no_dotted :: "string \<Rightarrow> bool" where
  "no_dotted s = (\<forall>i \<le> length s. \<not> dotted_at (drop i s))"

section \<open>A deterministic reading of the directive expression\<close>

text \<open>
  Devices for the proofs about the parser. In \<^const>\<open>directive_regex\<close> every repetition is
  followed by something its class excludes, up to the optional parameters, so the first
  alternative is found by one pass from left to right: \<^term>\<open>lit\<close> reads a literal,
  \<^term>\<open>run\<close> a non-empty longest run of a class, and \<^term>\<open>scan\<close> the whole prefix of the
  expression up to the command token, returning both tokens and the text left. In the
  optional parameters the whitespace backs off until a character of a line follows:
  \<^term>\<open>params_of\<close> takes the first remainder, in the order of the alternatives, that begins
  with one.
\<close>

definition lit :: "string \<Rightarrow> string \<Rightarrow> string option" where
  "lit l s = (if take (length l) s = l then Some (drop (length l) s) else None)"

definition run :: "(char \<Rightarrow> bool) \<Rightarrow> string \<Rightarrow> (string \<times> string) option" where
  "run P s = (if starts P s then Some (takeWhile P s, dropWhile P s) else None)"

definition strip_slash :: "string \<Rightarrow> string" where
  "strip_slash s = (if take 1 s = ''/'' then drop 1 s else s)"

definition scan_from :: "string \<Rightarrow> (string \<times> string \<times> string) option" where
  "scan_from s0 =
     (case lit ''run'' s0 of None \<Rightarrow> None | Some s1 \<Rightarrow>
      case run is_space s1 of None \<Rightarrow> None | Some (w1, s2) \<Rightarrow>
      case lit ''module'' s2 of None \<Rightarrow> None | Some s3 \<Rightarrow>
      case run is_space s3 of None \<Rightarrow> None | Some (w2, s4) \<Rightarrow>
      case run is_word s4 of None \<Rightarrow> None | Some (m, s5) \<Rightarrow>
      case run is_space s5 of None \<Rightarrow> None | Some (w3, s6) \<Rightarrow>
      case run is_word s6 of None \<Rightarrow> None | Some (c, rest) \<Rightarrow> Some (m, c, rest))"

definition scan :: "string \<Rightarrow> (string \<times> string \<times> string) option" where
  "scan s = scan_from (strip_slash s)"

definition params_of :: "string \<Rightarrow> string" where
  "params_of rest =
     (case filter (starts (\<lambda>c. \<not> is_line_terminator c)) (plus_ends Space rest) of
        [] \<Rightarrow> []
      | t # _ \<Rightarrow> takeWhile (\<lambda>c. \<not> is_line_terminator c) t)"

definition params_regex :: regex where
  "params_regex = Opt (Seq (Plus Space) (Group 3 (Plus Dot)))"

definition tail_regex :: regex where
  "tail_regex = Seq (Group 2 (Plus Word)) params_regex"

definition body_regex :: regex where
  "body_regex = Seq (Lit ''run'') (Seq (Plus Space) (Seq (Lit ''module'')
       (Seq (Plus Space) (Seq (Group 1 (Plus Word)) (Seq (Plus Space) tail_regex)))))"

section \<open>A concrete environment\<close>

definition listModule :: module_def where
  "listModule =
     \<lparr>id_m = ''list'', name = ''Listing Module'', capabilities = [''READ''],
      commands = commandsObject [''listAllModules'' \<mapsto>
        \<lparr>description = ''Returns all Module names with their commands and capabilities'',
         handler = Some (\<lambda>_. Returns (JArr []))\<rparr>]\<rparr>"

definition timeModule :: module_def where
  "timeModule =
     \<lparr>id_m = ''time'', name = ''Time Module'', capabilities = [''READ''],
      commands = commandsObject [''getDate'' \<mapsto>
        \<lparr>description = ''Returns the current date'',
         handler = Some (\<lambda>_. Returns (JStr ''11/2/2026''))\<rparr>,
       ''fail'' \<mapsto>
        \<lparr>description = ''Throws an Error'',
         handler = Some (\<lambda>_. Throws (ThrownValue (Some ''boom'')))\<rparr>,
       ''failNull'' \<mapsto>
        \<lparr>description = ''Throws null'',
         handler = Some (\<lambda>_. Throws ThrownNull)\<rparr>]\<rparr>"

text \<open>
  An Ollama configuration with the modules \<^verbatim>\<open>list\<close> and \<^verbatim>\<open>time\<close>, whose model answers
  the \<open>k\<close>-th call of a request with \<open>replies k\<close>.
\<close>

definition example_env :: "(nat \<Rightarrow> string) \<Rightarrow> env" where
  "example_env replies =
     \<lparr>defaultService = ''ollama'', openaiApiKey = None, geminiApiKey = None,
      openaiMainModel = None, geminiMainModel = None, ollamaMainModel = None,
      systemPrompt = ''You are an AI agent.'',
      loadModule = (\<lambda>k n. if n = ''list'' then Some listModule
                           else if n = ''time'' then Some timeModule else None),
      provider = (\<lambda>k req. Replied (replies k)),
      stringify = (\<lambda>out. ''{}''), stringifyPretty = (\<lambda>out. ''{}''),
      toHTML = (\<lambda>t. ''<p>'' @ t @ ''</p>''),
      isoTime = (\<lambda>k. ''2026-11-02T00:00:00.000Z''),
      dateNow = 1700000000000, random36 = ''k3j9x0q2a'',
      typeErrorMessage = (\<lambda>v p. ''Cannot read properties of '' @ v @ '' (reading '' @ sq @ p
                             @ sq @ '')'')\<rparr>"

definition example_pending :: pending_request where
  "example_pending =
     \<lparr>module = ''time'', command = ''getDate'', parameters = [],
      originalPrompt = ''what day is it?'', aiResponse = ''/run module time getDate'',
      allModuleOutputs = [], originalSessionId = ''default''\<rparr>"

definition example_state :: state where
  "example_state =
     \<lparr>pendingModuleRequests = [''1700000000000k3j9x0q2a'' \<mapsto> example_pending],
      chatHistory = [''default'' \<mapsto>
        [\<lparr>role = ''user'', content = ''what day is it?'',
          timestamp = Some ''2026-11-02T00:00:00.000Z''\<rparr>]]\<rparr>"

definition example_question :: message_request where
  "example_question =
     \<lparr>userprompt = ''what day is it?'', typoftask = ''llm'', sessionId = None\<rparr>"

definition example_direct :: message_request where
  "example_direct =
     \<lparr>userprompt = ''/run module time getDate'', typoftask = ''other'', sessionId = None\<rparr>"

definition wants_time :: "nat \<Rightarrow> string" where
  "wants_time k = ''/run module time getDate''"

definition wants_list :: "nat \<Rightarrow> string" where
  "wants_list k = ''/run module list listAllModules''"

definition later_env :: "(nat \<Rightarrow> string) \<Rightarrow> env" where
  "later_env replies = (example_env replies)\<lparr>dateNow := 1700000000777\<rparr>"

definition example_modules_question :: message_request where
  "example_modules_question =
     \<lparr>userprompt = ''which modules are there?'', typoftask = ''llm'', sessionId = None\<rparr>"

definition example_failing :: message_request where
  "example_failing =
     \<lparr>userprompt = ''/run module time failNull'', typoftask = ''llm'', sessionId = None\<rparr>"

definition answers_plainly :: "nat \<Rightarrow> string" where
  "answers_plainly k = ''It is Monday.''"

definition example_approve :: approve_request where
  "example_approve = \<lparr>requestId = ''1700000000000k3j9x0q2a'', approved = True\<rparr>"

text \<open>A pending request for the command of the \<^verbatim>\<open>time\<close> module whose handler throws \<^verbatim>\<open>null\<close>.\<close>

definition example_failing_pending :: pending_request where
  "example_failing_pending =
     \<lparr>module = ''time'', command = ''failNull'', parameters = [],
      originalPrompt = ''what day is it?'', aiResponse = ''/run module time failNull'',
      allModuleOutputs = [], originalSessionId = ''default''\<rparr>"

definition example_failing_state :: state where
  "example_failing_state =
     \<lparr>pendingModuleRequests = [''1700000000000k3j9x0q2a'' \<mapsto> example_failing_pending],
      chatHistory = [''default'' \<mapsto>
        [\<lparr>role = ''user'', content = ''what day is it?'',
          timestamp = Some ''2026-11-02T00:00:00.000Z''\<rparr>]]\<rparr>"

section \<open>Basic facts\<close>

lemmas class_defs = is_space_def is_word_def is_line_terminator_def is_quote_def

lemmas parts_defs = response_of_def state_of_def events_of_def

lemma decimal_nonempty: "decimal n \<noteq> []"
  by (subst decimal.simps) simp

lemma newRequestId_nonempty: "newRequestId e \<noteq> []"
  by (simp add: newRequestId_def decimal_nonempty)

lemma state_simps [simp]:
  "pendingModuleRequests (setHistory st sid h) = pendingModuleRequests st"
  "chatHistory (setHistory st sid h) = (chatHistory st)(sid \<mapsto> h)"
  "pendingModuleRequests (setPending st rid p) = (pendingModuleRequests st)(rid \<mapsto> p)"
  "chatHistory (setPending st rid p) = chatHistory st"
  "pendingModuleRequests (deletePending st rid) = (pendingModuleRequests st)(rid := None)"
  "chatHistory (deletePending st rid) = chatHistory st"
  by (simp_all add: setHistory_def setPending_def deletePending_def)

lemma getHistory_setHistory [simp]:
  "getHistory (setHistory st sid h) sid' = (if sid' = sid then h else getHistory st sid')"
  by (simp add: getHistory_def)

lemma getHistory_other [simp]:
  "getHistory (setPending st rid p) sid = getHistory st sid"
  "getHistory (deletePending st rid) sid = getHistory st sid"
  by (simp_all add: getHistory_def)

lemma continuationPrompt_nonempty: "continuationPrompt e original m c out \<noteq> []"
  by (simp add: continuationPrompt_def)

subsection \<open>The concrete environment evaluated\<close>

lemma parse_time: "parseModuleCommand ''/run module time getDate''
    = Some \<lparr>module = ''time'', command = ''getDate'', parameters = []\<rparr>"
  by (simp add: parseModuleCommand_def directive_regex_def class_defs)

lemma parse_list: "parseModuleCommand ''/run module list listAllModules''
    = Some \<lparr>module = ''list'', command = ''listAllModules'', parameters = []\<rparr>"
  by (simp add: parseModuleCommand_def directive_regex_def class_defs)

lemma parse_question: "parseModuleCommand ''what day is it?'' = None"
  by (simp add: parseModuleCommand_def directive_regex_def class_defs)

lemma parse_modules_question: "parseModuleCommand ''which modules are there?'' = None"
  by (simp add: parseModuleCommand_def directive_regex_def class_defs)

lemma parse_plain_answer: "parseModuleCommand ''It is Monday.'' = None"
  by (simp add: parseModuleCommand_def directive_regex_def class_defs)

lemma parse_time_fail: "parseModuleCommand ''/run module time failNull''
    = Some \<lparr>module = ''time'', command = ''failNull'', parameters = []\<rparr>"
  by (simp add: parseModuleCommand_def directive_regex_def class_defs)

lemma example_getResponse:
  "prompt \<noteq> [] \<Longrightarrow> getResponse (example_env replies) k prompt sys None h
     = (Inr (replies k), [ProviderCall (OllamaChat ''llama2'' [plain ''system'' sys, plain ''user'' prompt])])"
  by (simp add: getResponse_def getOllamaResponse_def ollamaRequest_def example_env_def
        moduleOutputMessages_def orDefault_def)

lemma later_getResponse:
  "prompt \<noteq> [] \<Longrightarrow> getResponse (later_env replies) k prompt sys None h
     = (Inr (replies k), [ProviderCall (OllamaChat ''llama2'' [plain ''system'' sys, plain ''user'' prompt])])"
  by (simp add: getResponse_def getOllamaResponse_def ollamaRequest_def example_env_def
        later_env_def moduleOutputMessages_def orDefault_def)

lemma example_run_time:
  "runModule (example_env replies) k ''time'' ''getDate'' []
     = (Inr (ModSuccess (JStr ''11/2/2026'')), [HandlerCall ''time'' ''getDate'' []])"
  by (simp add: runModule_def example_env_def timeModule_def parseParams_def commandsObject_def)

lemma later_run_time:
  "runModule (later_env replies) k ''time'' ''getDate'' []
     = (Inr (ModSuccess (JStr ''11/2/2026'')), [HandlerCall ''time'' ''getDate'' []])"
  by (simp add: runModule_def example_env_def later_env_def timeModule_def parseParams_def
        commandsObject_def)

lemma example_run_list:
  "runModule (example_env replies) k ''list'' ''listAllModules'' []
     = (Inr (ModSuccess (JArr [])), [HandlerCall ''list'' ''listAllModules'' []])"
  by (simp add: runModule_def example_env_def listModule_def parseParams_def commandsObject_def)

lemma example_run_fail:
  "runModule (example_env replies) k ''time'' ''fail'' []
     = (Inr (ModError (Some ''boom'')), [HandlerCall ''time'' ''fail'' []])"
  by (simp add: runModule_def example_env_def timeModule_def parseParams_def commandsObject_def)

lemma example_run_failNull:
  "runModule (example_env replies) k ''time'' ''failNull'' []
     = (Inl (typeErrorMessage (example_env replies) ''null'' ''message''),
        [HandlerCall ''time'' ''failNull'' []])"
  by (simp add: runModule_def example_env_def timeModule_def parseParams_def commandsObject_def)

lemma example_run_inherited:
  "runModule (example_env replies) k ''time'' ''constructor'' []
     = (Inr (ModError (Some ''Handler is not a function'')), [])"
  by (simp add: runModule_def example_env_def timeModule_def commandsObject_def
        objectPrototypeProperties_def)

lemma decimal_example: "decimal 1700000000000 = ''1700000000000''"
  by (simp add: decimal.simps)

lemma decimal_later: "decimal 1700000000777 = ''1700000000777''"
  by (simp add: decimal.simps)

lemma example_newRequestId: "newRequestId (example_env replies) = ''1700000000000k3j9x0q2a''"
  by (simp add: newRequestId_def example_env_def decimal_example)

lemma later_newRequestId: "newRequestId (later_env replies) = ''1700000000777k3j9x0q2a''"
  by (simp add: newRequestId_def example_env_def later_env_def decimal_later)

lemma example_pending_fields:
  "module example_pending = ''time''" "command example_pending = ''getDate''"
  "parameters example_pending = []" "originalPrompt example_pending = ''what day is it?''"
  "allModuleOutputs example_pending = []" "approvalSession example_pending = ''default''"
  "originalSessionId example_pending = ''default''"
  by (simp_all add: example_pending_def approvalSession_def)

lemma example_state_fields:
  "pendingModuleRequests example_state ''1700000000000k3j9x0q2a'' = Some example_pending"
  "chatHistory example_state ''default''
     = Some [\<lparr>role = ''user'', content = ''what day is it?'',
              timestamp = Some ''2026-11-02T00:00:00.000Z''\<rparr>]"
  by (simp_all add: example_state_def)

lemma later_run_list:
  "runModule (later_env replies) k ''list'' ''listAllModules'' []
     = (Inr (ModSuccess (JArr [])), [HandlerCall ''list'' ''listAllModules'' []])"
  by (simp add: runModule_def example_env_def later_env_def listModule_def parseParams_def
        commandsObject_def)

lemma example_question_suspends:
  "handleMessage (example_env wants_time) initial_state example_question
     = (RequiresApproval ''1700000000000k3j9x0q2a'' ''time'' ''getDate'' None
          ''AI requests permission to execute a module. Please approve or deny.'',
        setPending
          (setHistory (setHistory initial_state ''default'' []) ''default''
             [stamped (example_env wants_time) 0 ''user'' ''what day is it?''])
          ''1700000000000k3j9x0q2a''
          (mkPending \<lparr>module = ''time'', command = ''getDate'', parameters = []\<rparr>
             ''what day is it?'' ''/run module time getDate'' [] ''default''),
        [ProviderCall (OllamaChat ''llama2''
           [plain ''system'' ''You are an AI agent.'', plain ''user'' ''what day is it?''])])"
  by (simp add: handleMessage_def example_question_def sessionOf_def parse_question
        initial_state_def messageLLM_def example_getResponse wants_time_def parse_time
        example_newRequestId getHistory_def Let_def)
    (simp add: example_env_def)

section \<open>The parser on the dotted spelling\<close>

text \<open>
  C3. The specification says that \<^verbatim>\<open>/run module websearch.search foo\<close> parses to module
  \<^verbatim>\<open>websearch\<close>, command \<^verbatim>\<open>search\<close>, parameters \<^verbatim>\<open>foo\<close>. The module token of the regular
  expression is \<^verbatim>\<open>\w+\<close>, which stops at the dot, and whitespace must follow it: on the code
  this text has no match and the parser returns \<^verbatim>\<open>null\<close>.
\<close>

theorem parseModuleCommand_dotted_is_null:
  "parseModuleCommand ''/run module websearch.search foo'' = None"
  by (simp add: parseModuleCommand_def directive_regex_def class_defs)

section \<open>The requests sent to the providers\<close>

lemma slice_last10_length: "length (slice_last10 h) = min 10 (length h)"
  by (simp add: slice_last10_def)

lemma slice_last10_suffix: "suffix (slice_last10 h) h"
  by (simp add: slice_last10_def suffix_drop)

lemma slice_last10_short: "length h \<le> 10 \<Longrightarrow> slice_last10 h = h"
  by (simp add: slice_last10_def)

text \<open>The OpenAI and Gemini requests carry the last ten entries of the history.\<close>

lemma openAIRequest_history:
  "openAIRequest e prompt sys None hist =
     OpenAIChat (orDefault (openaiMainModel e) ''gpt-4o-mini'')
       ([plain ''system'' sys] @ slice_last10 hist @ [plain ''user'' prompt])"
  by (simp add: openAIRequest_def moduleOutputMessages_def slice_last10_def)

lemma geminiRequest_history:
  "hist \<noteq> [] \<Longrightarrow>
   geminiRequest e prompt sys None hist =
     GeminiGenerate (orDefault (geminiMainModel e) ''gemini-2.0-flash-exp'')
       (sys @ nl @ nl @ ''Chat History:'' @ nl
        @ join nl (map (\<lambda>msg. role msg @ '': '' @ content msg) (slice_last10 hist))
        @ nl @ nl @ ''User: '' @ prompt)"
  by (simp add: geminiRequest_def fullPrompt_def)

text \<open>
  C7. The specification says that every backend forwards the last ten history entries. The
  request \<^verbatim>\<open>getOllamaResponse\<close> passes to \<^verbatim>\<open>ollama.chat\<close> holds the system prompt and the
  prompt only, whatever the history is: no history entry is sent, and that request is the
  one provider call the adapter makes.
\<close>

theorem ollamaRequest_without_history:
  "ollamaRequest e prompt sys None hist =
     OllamaChat (orDefault (ollamaMainModel e) ''llama2'')
       [plain ''system'' sys, plain ''user'' prompt]
   \<and> snd (getOllamaResponse e k prompt sys None hist) =
     [ProviderCall (OllamaChat (orDefault (ollamaMainModel e) ''llama2'')
        [plain ''system'' sys, plain ''user'' prompt])]"
  by (simp add: getOllamaResponse_def ollamaRequest_def moduleOutputMessages_def Let_def)

section \<open>The pending table\<close>

lemma wf_initial: "wf_state initial_state"
  by (simp add: wf_state_def initial_state_def)

lemma messageListContinuation_pending:
  "k \<noteq> newRequestId e \<Longrightarrow>
   pendingModuleRequests (state_of (messageListContinuation e st sid prompt mc ev0)) k
     = pendingModuleRequests st k"
  by (auto simp: messageListContinuation_def Let_def parts_defs
           split: prod.splits sum.splits option.splits)

lemma messageLLM_pending:
  "k \<noteq> newRequestId e \<Longrightarrow>
   pendingModuleRequests (state_of (messageLLM e st sid prompt)) k = pendingModuleRequests st k"
  using messageListContinuation_pending [of k e st sid prompt]
  by (auto simp: messageLLM_def Let_def parts_defs
           split: prod.splits sum.splits option.splits)

lemma handleMessage_pending:
  "k \<noteq> newRequestId e \<Longrightarrow>
   pendingModuleRequests (state_of (handleMessage e st req)) k = pendingModuleRequests st k"
  using messageLLM_pending [of k e]
  by (auto simp: handleMessage_def Let_def parts_defs
           split: prod.splits sum.splits option.splits)

lemma approveListContinuation_pending:
  "k \<noteq> newRequestId e \<Longrightarrow>
   pendingModuleRequests (state_of (approveListContinuation e st p outs mc ev0)) k
     = pendingModuleRequests st k"
  by (auto simp: approveListContinuation_def Let_def parts_defs
           split: prod.splits sum.splits option.splits)

lemma approveExecute_pending:
  "k \<noteq> newRequestId e \<Longrightarrow>
   pendingModuleRequests (state_of (approveExecute e st p)) k = pendingModuleRequests st k"
  using approveListContinuation_pending [of k e st p]
  by (auto simp: approveExecute_def Let_def parts_defs
           split: prod.splits sum.splits option.splits)

lemma handleApprove_pending:
  "k \<noteq> newRequestId e \<Longrightarrow> k \<noteq> requestId req \<Longrightarrow>
   pendingModuleRequests (state_of (handleApprove e st req)) k = pendingModuleRequests st k"
  using approveExecute_pending [of k e "deletePending st (requestId req)"]
  by (auto simp: handleApprove_def Let_def parts_defs split: option.splits)

lemma wf_handleMessage: "wf_state st \<Longrightarrow> wf_state (state_of (handleMessage e st req))"
  using handleMessage_pending [of "[]" e st req] newRequestId_nonempty [of e]
  by (auto simp: wf_state_def dom_def)

lemma wf_handleApprove: "wf_state st \<Longrightarrow> wf_state (state_of (handleApprove e st req))"
proof (cases "requestId req = []")
  case True
  then show "wf_state st \<Longrightarrow> ?thesis" by (simp add: handleApprove_def parts_defs)
next
  case False
  then show "wf_state st \<Longrightarrow> ?thesis"
    using handleApprove_pending [of "[]" e req st] newRequestId_nonempty [of e]
    by (auto simp: wf_state_def dom_def)
qed

lemma wf_handleClearHistory: "wf_state st \<Longrightarrow> wf_state (handleClearHistory st sid)"
  by (simp add: wf_state_def handleClearHistory_def)

text \<open>
  C4. Denying a known request removes it, answers \<^verbatim>\<open>{success:true, message, denied:true}\<close>,
  calls no handler and no provider (the list of events is empty) and leaves the histories
  alone; denying the same id again answers that the request was not found, with no effect.
\<close>

theorem denial_resolves_without_effects:
  assumes "wf_state st" and "pendingModuleRequests st rid = Some p"
  shows "handleApprove e st \<lparr>requestId = rid, approved = False\<rparr>
           = (Denied ''Module execution denied by user.'', deletePending st rid, [])
       \<and> success (Denied ''Module execution denied by user.'')
       \<and> denied (Denied ''Module execution denied by user.'')
       \<and> pendingModuleRequests (deletePending st rid) rid = None
       \<and> chatHistory (deletePending st rid) = chatHistory st
       \<and> handleApprove e2 (deletePending st rid) \<lparr>requestId = rid, approved = False\<rparr>
           = (Failure ''Request not found or expired'', deletePending st rid, [])"
proof -
  from assms have "rid \<noteq> []"
    by (auto simp: wf_state_def)
  with assms(2) show ?thesis
    by (simp add: handleApprove_def success_def denied_def)
qed

theorem denial_resolves_without_effects_witness:
  "wf_state example_state
   \<and> pendingModuleRequests example_state ''1700000000000k3j9x0q2a'' = Some example_pending
   \<and> handleApprove (example_env wants_time) example_state
        \<lparr>requestId = ''1700000000000k3j9x0q2a'', approved = False\<rparr>
       = (Denied ''Module execution denied by user.'',
          deletePending example_state ''1700000000000k3j9x0q2a'', [])"
proof -
  have w: "wf_state example_state"
    by (simp add: wf_state_def example_state_def)
  have p: "pendingModuleRequests example_state ''1700000000000k3j9x0q2a'' = Some example_pending"
    by (simp add: example_state_def)
  from denial_resolves_without_effects [OF w p] w p show ?thesis by blast
qed


lemma handleApprove_missing_id:
  "handleApprove e st \<lparr>requestId = [], approved = a\<rparr> = (Failure ''Missing request ID'', st, [])"
  by (simp add: handleApprove_def)

lemma handleApprove_unknown_id:
  "rid \<noteq> [] \<Longrightarrow> pendingModuleRequests st rid = None \<Longrightarrow>
   handleApprove e st \<lparr>requestId = rid, approved = a\<rparr>
     = (Failure ''Request not found or expired'', st, [])"
  by (simp add: handleApprove_def)

lemma approveListContinuation_stored:
  assumes "pendingModuleRequests (state_of (approveListContinuation e st p outs mc ev0)) k = Some p'"
    and "pendingModuleRequests st k = None"
  shows "k = newRequestId e
       \<and> requiresApproval (response_of (approveListContinuation e st p outs mc ev0))
       \<and> length outs < length (allModuleOutputs p')"
  using assms
  by (auto simp: approveListContinuation_def Let_def parts_defs requiresApproval_def
                 mkPending_def
           split: prod.splits sum.splits option.splits if_splits)

lemma approveExecute_stored:
  assumes "pendingModuleRequests (state_of (approveExecute e st p)) k = Some p'"
    and "pendingModuleRequests st k = None"
  shows "k = newRequestId e \<and> requiresApproval (response_of (approveExecute e st p))
       \<and> length (allModuleOutputs p) < length (allModuleOutputs p')"
proof (cases "runModule e 0 (module p) (command p) (parameters p)")
  case (Pair res ev0)
  show ?thesis
  proof (cases res)
    case (Inl err)
    with Pair assms show ?thesis
      by (simp add: approveExecute_def parts_defs)
  next
    case (Inr out)
    show ?thesis
    proof (cases "getResponse e 0 (continuationPrompt e (originalPrompt p) (module p)
        (command p) out) (systemPrompt e) None (getHistory st (approvalSession p))")
      case (Pair res1 ev1)
      note G = this
      show ?thesis
      proof (cases res1)
        case (Inl err)
        with \<open>runModule e 0 (module p) (command p) (parameters p) = (res, ev0)\<close> Inr G assms
        show ?thesis
          by (simp add: approveExecute_def parts_defs Let_def)
      next
        case (Inr reply)
        note R = \<open>runModule e 0 (module p) (command p) (parameters p) = (res, ev0)\<close>
          \<open>res = Inr out\<close>
        show ?thesis
        proof (cases "parseModuleCommand reply")
          case None
          with R G Inr assms show ?thesis
            by (auto simp: approveExecute_def parts_defs Let_def split: option.splits)
        next
          case (Some mc)
          show ?thesis
          proof (cases "module mc = ''list''")
            case True
            with R G Inr Some assms
              approveListContinuation_stored [of e st p
                "allModuleOutputs p @ [(module p, command p, out)]" mc "ev0 @ ev1" k p']
            show ?thesis
              by (simp add: approveExecute_def Let_def)
          next
            case False
            with R G Inr Some assms show ?thesis
              by (auto simp: approveExecute_def parts_defs Let_def requiresApproval_def
                             mkPending_def split: if_splits)
          qed
        qed
      qed
    qed
  qed
qed

text \<open>
  C2, amended. The first call of \<^verbatim>\<open>POST /approve-module\<close> with a stored id removes the
  stored entry, approved or denied, whatever the approved execution does. The id is in the
  table afterwards only if the continuation of that same call suspends again and the id
  generated for the new request, the clock's reading followed by random characters and
  checked against nothing, equals it; the entry then is the new request, with a longer chain
  of results. Every call with a non-empty id that is not in the table, the same id later or
  an id never stored, answers \<^verbatim>\<open>Request not found or expired\<close> and changes nothing;
  a stored id is never empty.
\<close>

theorem approve_resolves_once:
  assumes "wf_state st" and "pendingModuleRequests st rid = Some p"
  shows "(\<forall>p'. pendingModuleRequests
                 (state_of (handleApprove e st \<lparr>requestId = rid, approved = a\<rparr>)) rid = Some p'
           \<longrightarrow> newRequestId e = rid
               \<and> requiresApproval
                   (response_of (handleApprove e st \<lparr>requestId = rid, approved = a\<rparr>))
               \<and> length (allModuleOutputs p) < length (allModuleOutputs p'))
       \<and> (\<forall>e2 st2 a2 rid2. rid2 \<noteq> [] \<and> pendingModuleRequests st2 rid2 = None \<longrightarrow>
             handleApprove e2 st2 \<lparr>requestId = rid2, approved = a2\<rparr>
               = (Failure ''Request not found or expired'', st2, []))
       \<and> rid \<noteq> []"
proof -
  from assms have ne: "rid \<noteq> []"
    by (auto simp: wf_state_def)
  have first: "\<forall>p'. pendingModuleRequests
                 (state_of (handleApprove e st \<lparr>requestId = rid, approved = a\<rparr>)) rid = Some p'
           \<longrightarrow> newRequestId e = rid
               \<and> requiresApproval
                   (response_of (handleApprove e st \<lparr>requestId = rid, approved = a\<rparr>))
               \<and> length (allModuleOutputs p) < length (allModuleOutputs p')"
  proof (cases a)
    case False
    with ne assms(2) show ?thesis
      by (simp add: handleApprove_def parts_defs)
  next
    case True
    with ne assms(2)
    have eq: "handleApprove e st \<lparr>requestId = rid, approved = a\<rparr>
            = approveExecute e (deletePending st rid) p"
      by (simp add: handleApprove_def)
    show ?thesis
    proof (intro allI impI)
      fix p' :: pending_request
      assume "pendingModuleRequests
          (state_of (handleApprove e st \<lparr>requestId = rid, approved = a\<rparr>)) rid = Some p'"
      with eq have "pendingModuleRequests
          (state_of (approveExecute e (deletePending st rid) p)) rid = Some p'" by simp
      moreover have "pendingModuleRequests (deletePending st rid) rid = None"
        by simp
      ultimately have "rid = newRequestId e
          \<and> requiresApproval (response_of (approveExecute e (deletePending st rid) p))
          \<and> length (allModuleOutputs p) < length (allModuleOutputs p')"
        by (rule approveExecute_stored)
      then show "newRequestId e = rid
          \<and> requiresApproval (response_of (handleApprove e st \<lparr>requestId = rid, approved = a\<rparr>))
          \<and> length (allModuleOutputs p) < length (allModuleOutputs p')"
        unfolding eq by auto
    qed
  qed
  have later: "\<forall>e2 st2 a2 rid2. rid2 \<noteq> [] \<and> pendingModuleRequests st2 rid2 = None \<longrightarrow>
             handleApprove e2 st2 \<lparr>requestId = rid2, approved = a2\<rparr>
               = (Failure ''Request not found or expired'', st2, [])"
    by (simp add: handleApprove_unknown_id)
  from first later ne show ?thesis by blast
qed

theorem approve_resolves_once_witness:
  "wf_state example_state
   \<and> pendingModuleRequests example_state ''1700000000000k3j9x0q2a'' = Some example_pending
   \<and> pendingModuleRequests
        (state_of (handleApprove (later_env wants_time) example_state
           \<lparr>requestId = ''1700000000000k3j9x0q2a'', approved = True\<rparr>))
        ''1700000000000k3j9x0q2a'' = None
   \<and> handleApprove (example_env wants_time) initial_state
        \<lparr>requestId = ''1700000000000k3j9x0q2a'', approved = True\<rparr>
       = (Failure ''Request not found or expired'', initial_state, [])"
proof -
  have w: "wf_state example_state"
    by (simp add: wf_state_def example_state_def)
  have p: "pendingModuleRequests example_state ''1700000000000k3j9x0q2a'' = Some example_pending"
    by (simp add: example_state_def)
  have n: "newRequestId (later_env wants_time) \<noteq> ''1700000000000k3j9x0q2a''"
    by (simp add: later_newRequestId)
  have i: "''1700000000000k3j9x0q2a'' \<noteq> []
      \<and> pendingModuleRequests initial_state ''1700000000000k3j9x0q2a'' = None"
    by (simp add: initial_state_def)
  note T = approve_resolves_once [OF w p, of "later_env wants_time" True]
  from T n have gone: "pendingModuleRequests
        (state_of (handleApprove (later_env wants_time) example_state
           \<lparr>requestId = ''1700000000000k3j9x0q2a'', approved = True\<rparr>))
        ''1700000000000k3j9x0q2a'' = None"
    by (cases "pendingModuleRequests
        (state_of (handleApprove (later_env wants_time) example_state
           \<lparr>requestId = ''1700000000000k3j9x0q2a'', approved = True\<rparr>))
        ''1700000000000k3j9x0q2a''") auto
  from T [THEN conjunct2, THEN conjunct1, THEN spec, THEN spec, THEN spec, THEN spec, THEN mp,
      OF i]
  have unknown: "handleApprove (example_env wants_time) initial_state
        \<lparr>requestId = ''1700000000000k3j9x0q2a'', approved = True\<rparr>
       = (Failure ''Request not found or expired'', initial_state, [])" .
  from w p gone unknown show ?thesis by blast
qed

text \<open>
  The claim as stated fails when the generated id repeats the resolved one: the approved
  call stores the next request of the chain under the same id, so the id is in the table after
  the first call and a second call with it is served, not refused.
\<close>

lemma example_collision:
  "handleApprove (example_env wants_time) example_state example_approve
     = (RequiresApproval ''1700000000000k3j9x0q2a'' ''time'' ''getDate''
          (Some ''<p>/run module time getDate</p>'')
          ''AI requests permission to execute another module.'',
        setPending (deletePending example_state ''1700000000000k3j9x0q2a'')
          ''1700000000000k3j9x0q2a''
          (mkPending \<lparr>module = ''time'', command = ''getDate'', parameters = []\<rparr>
             ''what day is it?'' ''/run module time getDate''
             [(''time'', ''getDate'', ModSuccess (JStr ''11/2/2026''))] ''default''),
        [HandlerCall ''time'' ''getDate'' [],
         ProviderCall (OllamaChat ''llama2''
           [plain ''system'' ''You are an AI agent.'',
            plain ''user'' (continuationPrompt (example_env wants_time) ''what day is it?''
              ''time'' ''getDate'' (ModSuccess (JStr ''11/2/2026'')))])])"
  by (simp add: example_state_fields example_run_time handleApprove_def example_approve_def
        approveExecute_def example_pending_fields example_getResponse
        continuationPrompt_nonempty wants_time_def parse_time example_newRequestId Let_def)
    (simp add: example_env_def)

theorem request_id_collision_counterexample:
  "pendingModuleRequests example_state ''1700000000000k3j9x0q2a'' = Some example_pending
   \<and> pendingModuleRequests
        (state_of (handleApprove (example_env wants_time) example_state example_approve))
        ''1700000000000k3j9x0q2a'' \<noteq> None
   \<and> success (response_of (handleApprove (example_env answers_plainly)
        (state_of (handleApprove (example_env wants_time) example_state example_approve))
        example_approve))"
proof -
  have s: "state_of (handleApprove (example_env wants_time) example_state example_approve)
      = setPending (deletePending example_state ''1700000000000k3j9x0q2a'')
          ''1700000000000k3j9x0q2a''
          (mkPending \<lparr>module = ''time'', command = ''getDate'', parameters = []\<rparr>
             ''what day is it?'' ''/run module time getDate''
             [(''time'', ''getDate'', ModSuccess (JStr ''11/2/2026''))] ''default'')"
    by (simp add: example_collision state_of_def)
  have m: "module (mkPending \<lparr>module = ''time'', command = ''getDate'', parameters = []\<rparr>
             ''what day is it?'' ''/run module time getDate''
             [(''time'', ''getDate'', ModSuccess (JStr ''11/2/2026''))] ''default'') = ''time''"
    "command (mkPending \<lparr>module = ''time'', command = ''getDate'', parameters = []\<rparr>
             ''what day is it?'' ''/run module time getDate''
             [(''time'', ''getDate'', ModSuccess (JStr ''11/2/2026''))] ''default'') = ''getDate''"
    "parameters (mkPending \<lparr>module = ''time'', command = ''getDate'', parameters = []\<rparr>
             ''what day is it?'' ''/run module time getDate''
             [(''time'', ''getDate'', ModSuccess (JStr ''11/2/2026''))] ''default'') = []"
    "approvalSession (mkPending \<lparr>module = ''time'', command = ''getDate'', parameters = []\<rparr>
             ''what day is it?'' ''/run module time getDate''
             [(''time'', ''getDate'', ModSuccess (JStr ''11/2/2026''))] ''default'') = ''default''"
    by (simp_all add: mkPending_def approvalSession_def)
  have a: "pendingModuleRequests
        (state_of (handleApprove (example_env wants_time) example_state example_approve))
        ''1700000000000k3j9x0q2a'' \<noteq> None"
    unfolding s by simp
  have b: "success (response_of (handleApprove (example_env answers_plainly)
        (state_of (handleApprove (example_env wants_time) example_state example_approve))
        example_approve))"
    unfolding s
    by (simp add: handleApprove_def example_approve_def approveExecute_def m
          example_run_time example_getResponse continuationPrompt_nonempty answers_plainly_def
          parse_plain_answer Let_def parts_defs success_def example_state_fields)
  from a b show ?thesis
    by (simp add: example_state_fields)
qed

section \<open>Suspension and the session history\<close>

lemma messageListContinuation_suspension:
  assumes "requiresApproval (response_of (messageListContinuation e st sid prompt mc ev0))"
  shows "chatHistory (state_of (messageListContinuation e st sid prompt mc ev0)) = chatHistory st
       \<and> approvalId (response_of (messageListContinuation e st sid prompt mc ev0)) = newRequestId e
       \<and> pendingModuleRequests (state_of (messageListContinuation e st sid prompt mc ev0))
            (newRequestId e) \<noteq> None"
  using assms
  by (auto simp: messageListContinuation_def requiresApproval_def Let_def parts_defs
           split: prod.splits sum.splits option.splits)

lemma messageLLM_suspension:
  assumes "requiresApproval (response_of (messageLLM e st sid prompt))"
  shows "chatHistory (state_of (messageLLM e st sid prompt)) = chatHistory st
       \<and> approvalId (response_of (messageLLM e st sid prompt)) = newRequestId e
       \<and> pendingModuleRequests (state_of (messageLLM e st sid prompt)) (newRequestId e) \<noteq> None"
proof -
  show ?thesis
  proof (cases "getResponse e 0 prompt (systemPrompt e) None (getHistory st sid)")
    case (Pair res ev0)
    show ?thesis
    proof (cases res)
      case (Inl err)
      with Pair assms show ?thesis
        by (simp add: messageLLM_def requiresApproval_def parts_defs)
    next
      case (Inr reply)
      show ?thesis
      proof (cases "parseModuleCommand reply")
        case None
        with Pair Inr assms show ?thesis
          by (simp add: messageLLM_def requiresApproval_def parts_defs Let_def)
      next
        case (Some mc)
        show ?thesis
        proof (cases "module mc = ''list''")
          case True
          with Pair Inr Some assms messageListContinuation_suspension [of e st sid prompt mc ev0]
          show ?thesis by (simp add: messageLLM_def)
        next
          case False
          with Pair Inr Some show ?thesis
            by (simp add: messageLLM_def parts_defs)
        qed
      qed
    qed
  qed
qed

text \<open>
  C10. Whenever \<^verbatim>\<open>POST /message\<close> answers with a suspension, the history of the request's
  session is the old one followed by the user message alone, the other sessions are as they
  were, the request is in the pending table, and denying it answers with the denial and
  leaves every history as it is; a denial, in whatever state, changes no history.
\<close>

theorem suspension_history:
  assumes "requiresApproval (response_of (handleMessage e st req))"
  shows "getHistory (state_of (handleMessage e st req)) (sessionOf req)
           = getHistory st (sessionOf req) @ [stamped e 0 ''user'' (userprompt req)]
       \<and> (\<forall>sid. sid \<noteq> sessionOf req \<longrightarrow>
             chatHistory (state_of (handleMessage e st req)) sid = chatHistory st sid)
       \<and> pendingModuleRequests (state_of (handleMessage e st req))
            (approvalId (response_of (handleMessage e st req))) \<noteq> None
       \<and> (\<forall>e2. response_of (handleApprove e2 (state_of (handleMessage e st req))
                   \<lparr>requestId = approvalId (response_of (handleMessage e st req)),
                    approved = False\<rparr>) = Denied ''Module execution denied by user.''
               \<and> chatHistory (state_of (handleApprove e2 (state_of (handleMessage e st req))
                   \<lparr>requestId = approvalId (response_of (handleMessage e st req)),
                    approved = False\<rparr>)) = chatHistory (state_of (handleMessage e st req)))
       \<and> (\<forall>e2 st2 rid. chatHistory (state_of (handleApprove e2 st2
                   \<lparr>requestId = rid, approved = False\<rparr>)) = chatHistory st2)"
proof -
  let ?sid = "sessionOf req"
  let ?st0 = "if chatHistory st ?sid = None then setHistory st ?sid [] else st"
  let ?st1 = "setHistory ?st0 ?sid (getHistory ?st0 ?sid @ [stamped e 0 ''user'' (userprompt req)])"
  from assms have fields: "userprompt req \<noteq> []" "typoftask req \<noteq> []"
    by (auto simp: handleMessage_def requiresApproval_def parts_defs split: if_splits)
  from assms fields have nodirect: "parseModuleCommand (userprompt req) = None"
    by (auto simp: handleMessage_def requiresApproval_def parts_defs Let_def
             split: option.splits prod.splits sum.splits)
  from assms fields nodirect have llm: "typoftask req = ''llm''"
    by (auto simp: handleMessage_def requiresApproval_def parts_defs Let_def split: if_splits)
  from fields nodirect llm
  have eq: "handleMessage e st req = messageLLM e ?st1 ?sid (userprompt req)"
    by (simp add: handleMessage_def Let_def)
  from assms eq have susp: "requiresApproval (response_of (messageLLM e ?st1 ?sid (userprompt req)))"
    by simp
  note S = messageLLM_suspension [OF susp]
  have h0: "getHistory ?st0 ?sid = getHistory st ?sid"
    by (simp add: getHistory_def)
  have c1: "getHistory (state_of (handleMessage e st req)) ?sid
              = getHistory st ?sid @ [stamped e 0 ''user'' (userprompt req)]"
    using S h0 by (simp add: eq getHistory_def)
  have c2: "\<forall>sid. sid \<noteq> ?sid \<longrightarrow> chatHistory (state_of (handleMessage e st req)) sid = chatHistory st sid"
    using S by (simp add: eq)
  have c3: "pendingModuleRequests (state_of (handleMessage e st req))
              (approvalId (response_of (handleMessage e st req))) \<noteq> None"
    using S by (simp add: eq)
  have c4: "\<forall>e2. response_of (handleApprove e2 (state_of (handleMessage e st req))
                   \<lparr>requestId = approvalId (response_of (handleMessage e st req)),
                    approved = False\<rparr>) = Denied ''Module execution denied by user.''
               \<and> chatHistory (state_of (handleApprove e2 (state_of (handleMessage e st req))
                   \<lparr>requestId = approvalId (response_of (handleMessage e st req)),
                    approved = False\<rparr>)) = chatHistory (state_of (handleMessage e st req))"
    using c3 S newRequestId_nonempty [of e]
    by (auto simp: eq handleApprove_def parts_defs Let_def)
  have c5: "\<forall>e2 st2 rid. chatHistory (state_of (handleApprove e2 st2
                   \<lparr>requestId = rid, approved = False\<rparr>)) = chatHistory st2"
    by (simp add: handleApprove_def parts_defs split: option.splits)
  from c1 c2 c3 c4 c5 show ?thesis by blast
qed

theorem suspension_history_witness:
  "requiresApproval (response_of (handleMessage (example_env wants_time) initial_state example_question))
   \<and> getHistory (state_of (handleMessage (example_env wants_time) initial_state example_question))
        ''default'' = [stamped (example_env wants_time) 0 ''user'' ''what day is it?'']"
  using suspension_history [of "example_env wants_time" initial_state example_question]
  by (simp add: example_question_suspends requiresApproval_def parts_defs)

section \<open>The task type\<close>

text \<open>
  C6, amended. When \<^verbatim>\<open>userprompt\<close> and \<^verbatim>\<open>typoftask\<close> are present, \<^verbatim>\<open>userprompt\<close> holds no
  directive and \<^verbatim>\<open>typoftask\<close> is not \<^verbatim>\<open>llm\<close>, the response is
  \<^verbatim>\<open>{success:false, message:"Unknown task type"}\<close>.
\<close>

theorem unknown_task_type:
  assumes "userprompt req \<noteq> []" and "typoftask req \<noteq> []" and "typoftask req \<noteq> ''llm''"
    and "parseModuleCommand (userprompt req) = None"
  shows "response_of (handleMessage e st req) = Failure ''Unknown task type''"
  using assms by (simp add: handleMessage_def Let_def parts_defs)

theorem unknown_task_type_witness:
  "userprompt \<lparr>userprompt = ''what day is it?'', typoftask = ''other'', sessionId = None\<rparr> \<noteq> []
   \<and> parseModuleCommand ''what day is it?'' = None
   \<and> response_of (handleMessage (example_env wants_time) initial_state
        \<lparr>userprompt = ''what day is it?'', typoftask = ''other'', sessionId = None\<rparr>)
      = Failure ''Unknown task type''"
  using unknown_task_type [of "\<lparr>userprompt = ''what day is it?'', typoftask = ''other'',
      sessionId = None\<rparr>" "example_env wants_time" initial_state]
  by (simp add: parse_question)

text \<open>
  The claim as stated fails for a direct command: the user text is parsed before the
  \<^verbatim>\<open>switch\<close> on \<^verbatim>\<open>typoftask\<close>, and a directive in it is executed whatever the task type.
\<close>

theorem direct_command_ignores_task_type:
  "userprompt example_direct \<noteq> [] \<and> typoftask example_direct \<noteq> []
   \<and> typoftask example_direct \<noteq> ''llm''
   \<and> response_of (handleMessage (example_env wants_time) initial_state example_direct)
      = DirectCommandResult ''<strong>Direct Command Result:</strong><br><pre>{}</pre>''
          (ModSuccess (JStr ''11/2/2026''))
          [stamped (example_env wants_time) 0 ''user'' ''/run module time getDate'',
           stamped (example_env wants_time) 1 ''assistant''
             (''Direct command executed: time.getDate'' @ nl @ ''Result: {}'')]
   \<and> response_of (handleMessage (example_env wants_time) initial_state example_direct)
      \<noteq> Failure ''Unknown task type''"
  by (simp add: handleMessage_def example_direct_def sessionOf_def parse_time
        example_run_time initial_state_def getHistory_def Let_def parts_defs directMessage_def
        directContent_def)
    (simp add: example_env_def)

section \<open>The listing module at the second step\<close>

text \<open>
  C1. The specification says that a directive for the module \<^verbatim>\<open>list\<close> never creates a
  pending approval, at any chain depth. On the code the directive that follows an
  auto-approved \<^verbatim>\<open>list\<close> execution is stored for approval without a look at its module,
  in \<^verbatim>\<open>POST /message\<close> and in \<^verbatim>\<open>POST /approve-module\<close> alike: when the model asks for
  \<^verbatim>\<open>list\<close> twice in a row, the second request is suspended.
\<close>

theorem list_directive_after_list_suspends:
  "response_of (handleMessage (example_env wants_list) initial_state example_modules_question)
     = RequiresApproval ''1700000000000k3j9x0q2a'' ''list'' ''listAllModules''
         (Some ''<p>/run module list listAllModules</p>'')
         ''AI requests permission to execute another module.''
   \<and> map_option module (pendingModuleRequests
        (state_of (handleMessage (example_env wants_list) initial_state example_modules_question))
        ''1700000000000k3j9x0q2a'') = Some ''list''
   \<and> response_of (handleApprove (later_env wants_list) example_state example_approve)
     = RequiresApproval ''1700000000777k3j9x0q2a'' ''list'' ''listAllModules''
         (Some ''<p>/run module list listAllModules</p>'')
         ''AI requests permission to execute another module.''
   \<and> map_option module (pendingModuleRequests
        (state_of (handleApprove (later_env wants_list) example_state example_approve))
        ''1700000000777k3j9x0q2a'') = Some ''list''"
proof -
  have message: "response_of
      (handleMessage (example_env wants_list) initial_state example_modules_question)
     = RequiresApproval ''1700000000000k3j9x0q2a'' ''list'' ''listAllModules''
         (Some ''<p>/run module list listAllModules</p>'')
         ''AI requests permission to execute another module.''
   \<and> map_option module (pendingModuleRequests
        (state_of (handleMessage (example_env wants_list) initial_state example_modules_question))
        ''1700000000000k3j9x0q2a'') = Some ''list''"
    by (simp add: handleMessage_def example_modules_question_def sessionOf_def
          parse_modules_question initial_state_def messageLLM_def example_getResponse
          wants_list_def parse_list example_newRequestId getHistory_def Let_def
          messageListContinuation_def example_run_list continuationPrompt_nonempty parts_defs
          mkPending_def)
      (simp add: example_env_def)
  have approve: "response_of (handleApprove (later_env wants_list) example_state example_approve)
     = RequiresApproval ''1700000000777k3j9x0q2a'' ''list'' ''listAllModules''
         (Some ''<p>/run module list listAllModules</p>'')
         ''AI requests permission to execute another module.''
   \<and> map_option module (pendingModuleRequests
        (state_of (handleApprove (later_env wants_list) example_state example_approve))
        ''1700000000777k3j9x0q2a'') = Some ''list''"
    by (simp add: example_state_fields later_run_time handleApprove_def example_approve_def
          approveExecute_def example_pending_fields later_getResponse
          continuationPrompt_nonempty wants_list_def parse_list later_newRequestId parts_defs
          Let_def approveListContinuation_def later_run_list mkPending_def)
      (simp add: later_env_def example_env_def)
  from message approve show ?thesis by blast
qed

section \<open>Handler failures\<close>

text \<open>
  A handler that returns, or that throws a value other than \<^verbatim>\<open>null\<close> and \<^verbatim>\<open>undefined\<close>,
  is contained: \<^verbatim>\<open>runModule\<close> returns \<^verbatim>\<open>{success:true, result}\<close> or \<^verbatim>\<open>{error}\<close> with the
  \<^verbatim>\<open>message\<close> property of the thrown value.
\<close>

lemma runModule_handler_returns:
  assumes "loadModule e k m = Some md" and "commands md c = Some cd" and "handler cd = Some h"
    and "h (parseParams ps) = Returns v"
  shows "runModule e k m c ps = (Inr (ModSuccess v), [HandlerCall m c (parseParams ps)])"
  using assms by (simp add: runModule_def Let_def)

lemma runModule_handler_throws_value:
  assumes "loadModule e k m = Some md" and "commands md c = Some cd" and "handler cd = Some h"
    and "h (parseParams ps) = Throws (ThrownValue msg)"
  shows "runModule e k m c ps = (Inr (ModError msg), [HandlerCall m c (parseParams ps)])"
  using assms by (simp add: runModule_def Let_def)

lemma runModule_handler_throws_null:
  assumes "loadModule e k m = Some md" and "commands md c = Some cd" and "handler cd = Some h"
    and "h (parseParams ps) = Throws ThrownNull"
  shows "runModule e k m c ps
           = (Inl (typeErrorMessage e ''null'' ''message''), [HandlerCall m c (parseParams ps)])"
  using assms by (simp add: runModule_def Let_def)

lemma runModule_handler_throws_undefined:
  assumes "loadModule e k m = Some md" and "commands md c = Some cd" and "handler cd = Some h"
    and "h (parseParams ps) = Throws ThrownUndefined"
  shows "runModule e k m c ps
           = (Inl (typeErrorMessage e ''undefined'' ''message''),
              [HandlerCall m c (parseParams ps)])"
  using assms by (simp add: runModule_def Let_def)

lemma handleMessage_direct_contained:
  assumes "userprompt req \<noteq> []" and "typoftask req \<noteq> []"
    and "parseModuleCommand (userprompt req) = Some d"
    and "runModule e 0 (module d) (command d) (parameters d) = (Inr out, ev)"
  shows "response_of (handleMessage e st req)
           = DirectCommandResult (directMessage e out) out
               (getHistory st (sessionOf req)
                @ [stamped e 0 ''user'' (userprompt req),
                   stamped e 1 ''assistant'' (directContent e d out)])"
  using assms by (auto simp: handleMessage_def Let_def parts_defs getHistory_def)

lemma handleMessage_direct_escapes:
  assumes "userprompt req \<noteq> []" and "typoftask req \<noteq> []"
    and "parseModuleCommand (userprompt req) = Some d"
    and "runModule e 0 (module d) (command d) (parameters d) = (Inl err, ev)"
  shows "response_of (handleMessage e st req)
           = Failure (''Direct command execution failed: '' @ err)
       \<and> getHistory (state_of (handleMessage e st req)) (sessionOf req)
           = getHistory st (sessionOf req)"
  using assms by (auto simp: handleMessage_def Let_def parts_defs getHistory_def)

lemma approveExecute_escapes:
  assumes "runModule e 0 (module p) (command p) (parameters p) = (Inl err, ev)"
  shows "approveExecute e st p = (Failure (''Module execution failed: '' @ err), st, ev)"
  using assms by (simp add: approveExecute_def)

text \<open>
  C9. The specification says that a handler exception is turned into an \<^verbatim>\<open>{error}\<close> value
  and never leaves the registry. For a handler that throws \<^verbatim>\<open>null\<close> the code does otherwise:
  in the \<^verbatim>\<open>catch\<close> block of \<^verbatim>\<open>runModule\<close> the expression \<^verbatim>\<open>err.message\<close> throws a
  \<^verbatim>\<open>TypeError\<close>, which leaves \<^verbatim>\<open>runModule\<close>. The direct command \<^verbatim>\<open>/run module time failNull\<close> is answered with
  \<^verbatim>\<open>{success:false, message:"Direct command execution failed: ..."}\<close> and nothing is added to
  the history beyond the creation of the session; the approval of a pending request for the
  same command is answered with \<^verbatim>\<open>Module execution failed: ...\<close>, the request is removed
  and the model is not asked again: the only event is the handler call.
\<close>

theorem handler_throwing_null_escapes:
  "runModule (example_env answers_plainly) 0 ''time'' ''failNull'' []
     = (Inl (typeErrorMessage (example_env answers_plainly) ''null'' ''message''),
        [HandlerCall ''time'' ''failNull'' []])
   \<and> handleMessage (example_env answers_plainly) initial_state example_failing
     = (Failure (''Direct command execution failed: ''
                 @ typeErrorMessage (example_env answers_plainly) ''null'' ''message''),
        setHistory initial_state ''default'' [],
        [HandlerCall ''time'' ''failNull'' []])
   \<and> handleApprove (example_env answers_plainly) example_failing_state example_approve
     = (Failure (''Module execution failed: ''
                 @ typeErrorMessage (example_env answers_plainly) ''null'' ''message''),
        deletePending example_failing_state ''1700000000000k3j9x0q2a'',
        [HandlerCall ''time'' ''failNull'' []])"
proof -
  have r: "runModule (example_env answers_plainly) 0 ''time'' ''failNull'' []
     = (Inl (typeErrorMessage (example_env answers_plainly) ''null'' ''message''),
        [HandlerCall ''time'' ''failNull'' []])"
    by (rule example_run_failNull)
  have m: "handleMessage (example_env answers_plainly) initial_state example_failing
     = (Failure (''Direct command execution failed: ''
                 @ typeErrorMessage (example_env answers_plainly) ''null'' ''message''),
        setHistory initial_state ''default'' [],
        [HandlerCall ''time'' ''failNull'' []])"
    by (simp add: handleMessage_def example_failing_def parse_time_fail r sessionOf_def
          initial_state_def Let_def)
  have a: "handleApprove (example_env answers_plainly) example_failing_state example_approve
     = (Failure (''Module execution failed: ''
                 @ typeErrorMessage (example_env answers_plainly) ''null'' ''message''),
        deletePending example_failing_state ''1700000000000k3j9x0q2a'',
        [HandlerCall ''time'' ''failNull'' []])"
    by (simp add: handleApprove_def example_approve_def example_failing_state_def
          example_failing_pending_def approveExecute_def r)
  from r m a show ?thesis by blast
qed

section \<open>What is appended to the session history\<close>













section \<open>The parser and the grammar\<close>

lemma starts_simps [simp]: "starts P [] = False" "starts P (c # s) = P c"
  by (simp_all add: starts_def)

lemma starts_iff: "starts P s = (s \<noteq> [] \<and> P (hd s))"
  by (cases s) simp_all

lemma word_not_space: "is_word c \<Longrightarrow> \<not> is_space c"
  by (auto simp: is_word_def is_space_def Let_def)

lemma star_ends_concat:
  assumes "\<And>t. starts (in_class k) t \<Longrightarrow> f t = []"
  shows "concat (map f (star_ends k s)) = f (dropWhile (in_class k) s)"
  using assms by (induction s) simp_all

lemma plus_ends_concat:
  assumes "\<And>t. starts (in_class k) t \<Longrightarrow> f t = []"
  shows "concat (map f (plus_ends k s))
           = (if starts (in_class k) s then f (dropWhile (in_class k) s) else [])"
  using star_ends_concat [of k f, OF assms] by (cases s) simp_all

lemma take_takeWhile: "take (length s - length (dropWhile P s)) s = takeWhile P s"
proof -
  have "length s = length (takeWhile P s) + length (dropWhile P s)"
    by (metis length_append takeWhile_dropWhile_id)
  then have "length s - length (dropWhile P s) = length (takeWhile P s)"
    by simp
  then show ?thesis
    by (metis append_eq_conv_conj takeWhile_dropWhile_id)
qed

lemma alts_Seq_Lit:
  "alts (Seq (Lit l) r) (s, g) = (if take (length l) s = l then alts r (drop (length l) s, g) else [])"
  by simp

lemma alts_Seq_Plus:
  assumes "\<And>t. starts (in_class k) t \<Longrightarrow> alts r (t, g) = []"
  shows "alts (Seq (Plus k) r) (s, g)
           = (if starts (in_class k) s then alts r (dropWhile (in_class k) s, g) else [])"
  using plus_ends_concat [of k "\<lambda>t. alts r (t, g)" s, OF assms]
  by (simp add: comp_def)

lemma alts_Seq_Group_Plus:
  assumes "\<And>t h. starts (in_class k) t \<Longrightarrow> alts r (t, h) = []"
  shows "alts (Seq (Group i (Plus k)) r) (s, g)
           = (if starts (in_class k) s
              then alts r (dropWhile (in_class k) s, g(i \<mapsto> takeWhile (in_class k) s)) else [])"
  using plus_ends_concat [of k "\<lambda>t. alts r (t, g(i \<mapsto> take (length s - length t) s))" s, OF assms]
  by (simp add: comp_def take_takeWhile)

lemma reject_Lit:
  assumes "starts P t" and "l \<noteq> []" and "\<not> P (hd l)"
  shows "alts (Seq (Lit l) r) (t, g) = []"
proof -
  have "take (length l) t \<noteq> l"
  proof
    assume "take (length l) t = l"
    with assms(2) have "hd t = hd l"
      by (metis hd_take length_greater_0_conv)
    with assms show False by (simp add: starts_iff)
  qed
  then show ?thesis by simp
qed

lemma plus_ends_reject: "\<not> starts (in_class k) t \<Longrightarrow> plus_ends k t = []"
  by (cases t) simp_all

lemma reject_Plus:
  assumes "\<not> starts (in_class k) t"
  shows "alts (Seq (Plus k) r) (t, g) = []" and "alts (Seq (Group i (Plus k)) r) (t, g) = []"
  using plus_ends_reject [OF assms] by simp_all

lemma space_start_not_word: "starts is_space t \<Longrightarrow> \<not> starts is_word t"
  by (cases t) (auto dest: word_not_space)

lemma word_start_not_space: "starts is_word t \<Longrightarrow> \<not> starts is_space t"
  by (cases t) (auto dest: word_not_space)

lemma star_ends_hd: "\<exists>rest. star_ends k s = dropWhile (in_class k) s # rest"
  by (induction s) auto

lemma plus_ends_hd:
  "starts (in_class k) s \<Longrightarrow> \<exists>rest. plus_ends k s = dropWhile (in_class k) s # rest"
  using star_ends_hd [of k "tl s"] by (cases s) simp_all

lemma alts_Seq_Group_Plus_first:
  assumes "starts (in_class k) s"
  shows "\<exists>ys. alts (Seq (Group i (Plus k)) r) (s, g)
           = alts r (dropWhile (in_class k) s, g(i \<mapsto> takeWhile (in_class k) s)) @ ys"
proof -
  from plus_ends_hd [OF assms] obtain rest
    where "plus_ends k s = dropWhile (in_class k) s # rest" by blast
  then show ?thesis by (simp add: take_takeWhile)
qed

lemma directive_regex_unfold:
  "directive_regex =
     Seq (Opt (Lit ''/'')) (Seq (Lit ''run'') (Seq (Plus Space) (Seq (Lit ''module'')
       (Seq (Plus Space) (Seq (Group 1 (Plus Word)) (Seq (Plus Space) tail_regex))))))"
  by (simp add: directive_regex_def tail_regex_def params_regex_def)

lemma in_class_fun:
  "in_class Space = is_space" "in_class Word = is_word"
  "in_class Dot = (\<lambda>c. \<not> is_line_terminator c)"
  by (rule ext, simp)+

lemma layer_tail_space:
  "alts (Seq (Plus Space) tail_regex) (s, g)
     = (case run is_space s of None \<Rightarrow> [] | Some (w, t) \<Rightarrow> alts tail_regex (t, g))"
proof -
  have rej: "\<And>t. starts (in_class Space) t \<Longrightarrow> alts tail_regex (t, g) = []"
    unfolding tail_regex_def in_class_fun
    by (rule reject_Plus(2)) (simp add: space_start_not_word in_class_fun)
  from alts_Seq_Plus [of Space tail_regex g s, OF rej] show ?thesis
    by (simp add: in_class_fun run_def del: alts.simps)
qed

lemma layer_module_token:
  "alts (Seq (Group 1 (Plus Word)) (Seq (Plus Space) tail_regex)) (s, g)
     = (case run is_word s of None \<Rightarrow> []
        | Some (m, t) \<Rightarrow> alts (Seq (Plus Space) tail_regex) (t, g(1 \<mapsto> m)))"
proof -
  have rej: "\<And>t h. starts (in_class Word) t \<Longrightarrow> alts (Seq (Plus Space) tail_regex) (t, h) = []"
    unfolding in_class_fun
    by (rule reject_Plus(1)) (simp add: word_start_not_space in_class_fun)
  from alts_Seq_Group_Plus [of Word "Seq (Plus Space) tail_regex" 1 s g, OF rej] show ?thesis
    by (simp add: in_class_fun run_def del: alts.simps)
qed

lemma layer_module_space:
  "alts (Seq (Plus Space) (Seq (Group 1 (Plus Word)) r)) (s, g)
     = (case run is_space s of None \<Rightarrow> []
        | Some (w, t) \<Rightarrow> alts (Seq (Group 1 (Plus Word)) r) (t, g))"
proof -
  have rej: "\<And>t. starts (in_class Space) t \<Longrightarrow> alts (Seq (Group 1 (Plus Word)) r) (t, g) = []"
    unfolding in_class_fun
    by (rule reject_Plus(2)) (simp add: space_start_not_word in_class_fun)
  from alts_Seq_Plus [of Space "Seq (Group 1 (Plus Word)) r" g s, OF rej] show ?thesis
    by (simp add: in_class_fun run_def del: alts.simps)
qed

lemma layer_run_space:
  "alts (Seq (Plus Space) (Seq (Lit ''module'') r)) (s, g)
     = (case run is_space s of None \<Rightarrow> []
        | Some (w, t) \<Rightarrow> alts (Seq (Lit ''module'') r) (t, g))"
proof -
  have rej: "\<And>t. starts (in_class Space) t \<Longrightarrow> alts (Seq (Lit ''module'') r) (t, g) = []"
    unfolding in_class_fun
    by (rule reject_Lit [where P = is_space]) (simp_all add: is_space_def)
  from alts_Seq_Plus [of Space "Seq (Lit ''module'') r" g s, OF rej] show ?thesis
    by (simp add: in_class_fun run_def del: alts.simps)
qed

lemma layer_slash:
  "alts (Seq (Opt (Lit ''/'')) (Seq (Lit ''run'') r)) (s, g)
     = alts (Seq (Lit ''run'') r) (strip_slash s, g)"
proof (cases "take 1 s = ''/''")
  case True
  then have "take 3 s \<noteq> ''run''"
    by (cases s) auto
  with True show ?thesis by (simp add: eval_nat_numeral strip_slash_def)
next
  case False
  then show ?thesis by (simp add: eval_nat_numeral strip_slash_def)
qed

lemma layer_lit:
  "alts (Seq (Lit l) r) (s, g) = (case lit l s of None \<Rightarrow> [] | Some t \<Rightarrow> alts r (t, g))"
  by (simp add: lit_def)

declare alts.simps [simp del]

lemma alts_tail_regex_None: "run is_word s = None \<Longrightarrow> alts tail_regex (s, g) = []"
  unfolding tail_regex_def
  by (rule reject_Plus(2)) (simp add: in_class_fun run_def split: if_splits)

lemma alts_tail_regex_Some:
  "run is_word s = Some (c, rest) \<Longrightarrow>
   \<exists>ys. alts tail_regex (s, g) = alts params_regex (rest, g(2 \<mapsto> c)) @ ys"
  using alts_Seq_Group_Plus_first [of Word s 2 params_regex g]
  by (simp add: tail_regex_def in_class_fun run_def split: if_splits)

lemmas layers = layer_lit layer_run_space layer_module_space layer_module_token
  layer_tail_space

lemma alts_directive_regex: "alts directive_regex (s, g) = alts body_regex (strip_slash s, g)"
  unfolding directive_regex_unfold body_regex_def by (rule layer_slash)

lemma alts_body_None: "scan_from s = None \<Longrightarrow> alts body_regex (s, g) = []"
  unfolding body_regex_def layers
  by (simp add: scan_from_def alts_tail_regex_None split: option.splits prod.splits)

lemma alts_body_Some:
  assumes "scan_from s = Some (m, c, rest)"
  shows "\<exists>ys. alts body_regex (s, g) = alts params_regex (rest, g(1 \<mapsto> m, 2 \<mapsto> c)) @ ys"
  using assms unfolding body_regex_def layers
  by (auto simp: scan_from_def alts_tail_regex_Some split: option.splits prod.splits)

lemma alts_scan_None: "scan s = None \<Longrightarrow> alts directive_regex (s, g) = []"
  by (simp add: alts_directive_regex alts_body_None scan_def)

lemma alts_scan_Some:
  "scan s = Some (m, c, rest) \<Longrightarrow>
   \<exists>ys. alts directive_regex (s, g) = alts params_regex (rest, g(1 \<mapsto> m, 2 \<mapsto> c)) @ ys"
  unfolding alts_directive_regex scan_def by (rule alts_body_Some)

lemma not_starts_dropWhile: "\<not> starts P (dropWhile P s)"
  by (induction s) simp_all

lemma starts_takeWhile: "starts P s \<Longrightarrow> takeWhile P s \<noteq> []"
  by (cases s) simp_all

lemma dropWhile_not_starts: "\<not> starts P t \<Longrightarrow> dropWhile P t = t"
  by (cases t) simp_all

lemma takeWhile_not_starts: "\<not> starts P t \<Longrightarrow> takeWhile P t = []"
  by (cases t) simp_all

lemma run_append:
  assumes "w \<noteq> []" and "\<forall>c \<in> set w. P c" and "\<not> starts P t"
  shows "starts P (w @ t)" and "takeWhile P (w @ t) = w" and "dropWhile P (w @ t) = t"
proof -
  from assms(1,2) show "starts P (w @ t)" by (cases w) simp_all
  from assms(2,3) show "takeWhile P (w @ t) = w"
    by (simp add: takeWhile_append2 takeWhile_not_starts)
  from assms(2,3) show "dropWhile P (w @ t) = t"
    by (simp add: dropWhile_append2 dropWhile_not_starts)
qed

lemma token_start: "word_token m \<Longrightarrow> starts is_word (m @ t) \<and> \<not> starts is_space (m @ t)"
  by (cases m) (auto simp: word_token_def dest: word_not_space)

lemma spaces_start: "spaces w \<Longrightarrow> starts is_space (w @ t) \<and> \<not> starts is_word (w @ t)"
  by (cases w) (auto simp: spaces_def dest: word_not_space)

lemma run_Some: "w \<noteq> [] \<Longrightarrow> \<forall>c \<in> set w. P c \<Longrightarrow> \<not> starts P t \<Longrightarrow> run P (w @ t) = Some (w, t)"
  using run_append [of w P t] by (simp add: run_def)

lemma lit_append: "lit l (l @ t) = Some t"
  by (simp add: lit_def)

lemma scan_complete:
  assumes s: "s = slash @ ''run'' @ w1 @ ''module'' @ w2 @ m @ w3 @ c @ rest"
    and slash: "slash = [] \<or> slash = ''/''"
    and w: "spaces w1" "spaces w2" "spaces w3"
    and t: "word_token m" "word_token c"
    and r: "\<not> starts is_word rest"
  shows "scan s = Some (m, c, rest)"
proof -
  define t6 where "t6 = c @ rest"
  define t5 where "t5 = w3 @ t6"
  define t4 where "t4 = m @ t5"
  define t3 where "t3 = w2 @ t4"
  define t2 where "t2 = ''module'' @ t3"
  define t1 where "t1 = w1 @ t2"
  from s slash have s0: "strip_slash s = ''run'' @ t1"
    by (auto simp: strip_slash_def t1_def t2_def t3_def t4_def t5_def t6_def)
  have notsp: "\<not> starts is_space t2"
    by (simp add: t2_def is_space_def)
  from w(1) have w1: "w1 \<noteq> []" "\<forall>c \<in> set w1. is_space c"
    by (simp_all add: spaces_def)
  from w(2) have w2: "w2 \<noteq> []" "\<forall>c \<in> set w2. is_space c"
    by (simp_all add: spaces_def)
  from w(3) have w3: "w3 \<noteq> []" "\<forall>c \<in> set w3. is_space c"
    by (simp_all add: spaces_def)
  from t(1) have m: "m \<noteq> []" "\<forall>c \<in> set m. is_word c"
    by (simp_all add: word_token_def)
  from t(2) have c: "c \<noteq> []" "\<forall>x \<in> set c. is_word x"
    by (simp_all add: word_token_def)
  have a0: "lit ''run'' (''run'' @ t1) = Some t1"
    by (rule lit_append)
  have a1: "run is_space t1 = Some (w1, t2)"
    unfolding t1_def by (rule run_Some [OF w1 notsp])
  have b1: "lit ''module'' t2 = Some t3"
    unfolding t2_def by (rule lit_append)
  have a2: "run is_space t3 = Some (w2, t4)"
    unfolding t3_def using token_start [OF t(1), of t5]
    by (intro run_Some w2) (simp add: t4_def)
  have a3: "run is_word t4 = Some (m, t5)"
    unfolding t4_def using spaces_start [OF w(3), of t6]
    by (intro run_Some m) (simp add: t5_def)
  have a4: "run is_space t5 = Some (w3, t6)"
    unfolding t5_def using token_start [OF t(2), of rest]
    by (intro run_Some w3) (simp add: t6_def)
  have a5: "run is_word t6 = Some (c, rest)"
    unfolding t6_def by (rule run_Some [OF c r])
  show ?thesis
    unfolding scan_def scan_from_def s0 a0 by (simp add: a1 b1 a2 a3 a4 a5)
qed

lemma lit_SomeD: "lit l s = Some t \<Longrightarrow> s = l @ t"
  by (auto simp: lit_def split: if_splits) (metis append_take_drop_id)

lemma run_SomeD:
  assumes "run P s = Some (w, t)"
  shows "s = w @ t" and "w \<noteq> []" and "\<forall>c \<in> set w. P c" and "\<not> starts P t"
  using assms
  by (auto simp: run_def starts_takeWhile not_starts_dropWhile split: if_splits
           dest: set_takeWhileD)

lemma strip_slash_split: "\<exists>slash. s = slash @ strip_slash s \<and> (slash = [] \<or> slash = ''/'')"
proof (cases "take 1 s = ''/''")
  case True
  then have "s = ''/'' @ drop 1 s"
    by (metis append_take_drop_id)
  then have "s = ''/'' @ strip_slash s \<and> (''/'' = [] \<or> ''/'' = ''/'')"
    using True by (simp add: strip_slash_def)
  then show ?thesis by (rule exI)
next
  case False
  then show ?thesis by (simp add: strip_slash_def)
qed

lemma scan_from_sound:
  assumes "scan_from s0 = Some (m, c, rest)"
  shows "\<exists>w1 w2 w3.
           s0 = ''run'' @ w1 @ ''module'' @ w2 @ m @ w3 @ c @ rest
           \<and> spaces w1 \<and> spaces w2 \<and> spaces w3 \<and> word_token m \<and> word_token c
           \<and> \<not> starts is_word rest"
proof -
  from assms obtain s1 w1 s2 s3 w2 s4 s5 w3 s6
    where st: "lit ''run'' s0 = Some s1" "run is_space s1 = Some (w1, s2)"
      "lit ''module'' s2 = Some s3" "run is_space s3 = Some (w2, s4)"
      "run is_word s4 = Some (m, s5)" "run is_space s5 = Some (w3, s6)"
      "run is_word s6 = Some (c, rest)"
    by (auto simp: scan_from_def split: option.splits prod.splits)
  have whole: "s0 = ''run'' @ w1 @ ''module'' @ w2 @ m @ w3 @ c @ rest"
    using lit_SomeD [OF st(1)] run_SomeD(1) [OF st(2)] lit_SomeD [OF st(3)]
      run_SomeD(1) [OF st(4)] run_SomeD(1) [OF st(5)] run_SomeD(1) [OF st(6)]
      run_SomeD(1) [OF st(7)]
    by simp
  have sp: "spaces w1" "spaces w2" "spaces w3"
    using run_SomeD(2,3) [OF st(2)] run_SomeD(2,3) [OF st(4)] run_SomeD(2,3) [OF st(6)]
    by (simp_all add: spaces_def)
  have tk: "word_token m" "word_token c"
    using run_SomeD(2,3) [OF st(5)] run_SomeD(2,3) [OF st(7)] by (simp_all add: word_token_def)
  have nr: "\<not> starts is_word rest"
    using run_SomeD(4) [OF st(7)] .
  from whole sp tk nr show ?thesis by blast
qed

lemma scan_sound:
  assumes "scan s = Some (m, c, rest)"
  shows "\<exists>slash w1 w2 w3.
           s = slash @ ''run'' @ w1 @ ''module'' @ w2 @ m @ w3 @ c @ rest
           \<and> (slash = [] \<or> slash = ''/'')
           \<and> spaces w1 \<and> spaces w2 \<and> spaces w3 \<and> word_token m \<and> word_token c
           \<and> \<not> starts is_word rest"
proof -
  from strip_slash_split [of s] obtain slash
    where sl: "s = slash @ strip_slash s" "slash = [] \<or> slash = ''/''" by blast
  from scan_from_sound [OF assms [unfolded scan_def]] obtain w1 w2 w3
    where b: "strip_slash s = ''run'' @ w1 @ ''module'' @ w2 @ m @ w3 @ c @ rest"
      "spaces w1" "spaces w2" "spaces w3" "word_token m" "word_token c" "\<not> starts is_word rest"
    by blast
  from sl(1) b(1) have "s = slash @ ''run'' @ w1 @ ''module'' @ w2 @ m @ w3 @ c @ rest"
    by simp
  with sl(2) b(2-) show ?thesis by blast
qed


lemma concat_first: "concat xss = x # xs \<Longrightarrow> \<exists>ys \<in> set xss. \<exists>zs. ys = x # zs"
proof (induction xss)
  case Nil
  then show ?case by simp
next
  case (Cons a xss)
  then show ?case by (cases a) auto
qed

lemma star_ends_set:
  "t \<in> set (star_ends k s) \<Longrightarrow> \<exists>w. s = w @ t \<and> (\<forall>c \<in> set w. in_class k c)"
proof (induction s)
  case Nil
  then show ?case by simp
next
  case (Cons a s)
  show ?case
  proof (cases "t = a # s")
    case True
    then show ?thesis by simp
  next
    case False
    with Cons.prems have "in_class k a" and "t \<in> set (star_ends k s)"
      by (auto split: if_splits)
    with Cons.IH obtain w where "s = w @ t" "\<forall>c \<in> set w. in_class k c" by blast
    with \<open>in_class k a\<close> have "a # s = (a # w) @ t \<and> (\<forall>c \<in> set (a # w). in_class k c)"
      by simp
    then show ?thesis by blast
  qed
qed

lemma plus_ends_set:
  assumes "t \<in> set (plus_ends k s)"
  shows "\<exists>w. s = w @ t \<and> w \<noteq> [] \<and> (\<forall>c \<in> set w. in_class k c)"
proof (cases s)
  case Nil
  with assms show ?thesis by simp
next
  case (Cons a s')
  with assms have a: "in_class k a" and "t \<in> set (star_ends k s')"
    by (auto split: if_splits)
  with star_ends_set obtain w where "s' = w @ t" "\<forall>c \<in> set w. in_class k c" by blast
  with a Cons have "s = (a # w) @ t \<and> a # w \<noteq> [] \<and> (\<forall>c \<in> set (a # w). in_class k c)"
    by simp
  then show ?thesis by blast
qed

lemma alts_Group_Plus_first:
  assumes "alts (Group i (Plus k)) (t, g) = y # ys"
  shows "starts (in_class k) t
       \<and> y = (dropWhile (in_class k) t, g(i \<mapsto> takeWhile (in_class k) t))"
proof -
  from assms have ne: "plus_ends k t \<noteq> []"
    by (auto simp: alts.simps)
  then have st: "starts (in_class k) t"
    using plus_ends_reject by blast
  from plus_ends_hd [OF st] obtain rest
    where "plus_ends k t = dropWhile (in_class k) t # rest" by blast
  with assms st show ?thesis
    by (simp add: alts.simps take_takeWhile)
qed

lemma star_ends_self: "s \<in> set (star_ends k s)"
  by (cases s) simp_all

lemma star_ends_complete:
  "\<forall>c \<in> set w. in_class k c \<Longrightarrow> t \<in> set (star_ends k (w @ t))"
proof (induction w)
  case Nil
  show ?case using star_ends_self [of t k] by simp
next
  case (Cons a w)
  then have "in_class k a" and "t \<in> set (star_ends k (w @ t))" by simp_all
  then show ?case by simp
qed

lemma plus_ends_complete:
  assumes "w \<noteq> []" and "\<forall>c \<in> set w. in_class k c"
  shows "t \<in> set (plus_ends k (w @ t))"
proof (cases w)
  case Nil
  with assms(1) show ?thesis by simp
next
  case (Cons a v)
  with assms(2) have "in_class k a" and "\<forall>c \<in> set v. in_class k c" by simp_all
  with star_ends_complete [of v k t] Cons show ?thesis by simp
qed

lemma star_ends_length:
  assumes "t \<in> set (star_ends k s)"
  shows "length t \<le> length s"
proof -
  from star_ends_set [OF assms] obtain w where "s = w @ t" by blast
  then show ?thesis by simp
qed

lemma star_ends_sorted: "sorted_wrt (\<lambda>a b. length a < length b) (star_ends k s)"
proof (induction s)
  case Nil
  then show ?case by simp
next
  case (Cons a s)
  have "\<forall>x \<in> set (star_ends k s). length x < length (a # s)"
  proof
    fix x assume "x \<in> set (star_ends k s)"
    then have "length x \<le> length s" by (rule star_ends_length)
    then show "length x < length (a # s)" by simp
  qed
  with Cons show ?case
    by (simp add: sorted_wrt_append)
qed

lemma plus_ends_sorted: "sorted_wrt (\<lambda>a b. length a < length b) (plus_ends k s)"
proof (cases s)
  case Nil
  then show ?thesis by simp
next
  case (Cons a v)
  with star_ends_sorted [of k v] show ?thesis by simp
qed

lemma filter_first_shortest:
  assumes "sorted_wrt (\<lambda>a b. length a < length b) xs" and "filter P xs = t # ts"
  shows "t \<in> set xs \<and> P t \<and> (\<forall>u \<in> set xs. P u \<longrightarrow> length t \<le> length u)"
  using assms
proof (induction xs)
  case Nil
  then show ?case by simp
next
  case (Cons x xs)
  show ?case
  proof (cases "P x")
    case True
    with Cons.prems(2) have tx: "t = x" by simp
    from Cons.prems(1) have "\<forall>u \<in> set xs. length x < length u" by simp
    then have "\<forall>u \<in> set (x # xs). length x \<le> length u"
      by (simp add: less_imp_le)
    with True tx show ?thesis by simp
  next
    case False
    with Cons.prems have "sorted_wrt (\<lambda>a b. length a < length b) xs" "filter P xs = t # ts"
      by simp_all
    from Cons.IH [OF this] False show ?thesis by simp
  qed
qed

lemma concat_map_none:
  assumes "\<And>u. P u \<longleftrightarrow> f u \<noteq> []" and "filter P xs = []"
  shows "concat (map f xs) = []"
proof -
  from assms(2) have "\<forall>u \<in> set xs. \<not> P u"
    by (simp add: filter_empty_conv)
  with assms(1) have "\<forall>u \<in> set xs. f u = []" by blast
  then show ?thesis by simp
qed

lemma concat_map_first:
  assumes "\<And>u. P u \<longleftrightarrow> f u \<noteq> []" and "filter P xs = t # ts"
  shows "\<exists>ys. concat (map f xs) = f t @ ys"
  using assms(2)
proof (induction xs)
  case Nil
  then show ?case by simp
next
  case (Cons x xs)
  show ?case
  proof (cases "P x")
    case True
    with Cons.prems have "t = x" by simp
    then show ?thesis by simp
  next
    case False
    with assms(1) have "f x = []" by blast
    moreover from False Cons.prems have "filter P xs = t # ts" by simp
    ultimately show ?thesis using Cons.IH by simp
  qed
qed

lemma alts_Group_Dot:
  "alts (Group 3 (Plus Dot)) (t, g) \<noteq> [] \<longleftrightarrow> starts (\<lambda>c. \<not> is_line_terminator c) t"
  "starts (\<lambda>c. \<not> is_line_terminator c) t \<Longrightarrow>
     \<exists>ys. alts (Group 3 (Plus Dot)) (t, g)
        = (dropWhile (\<lambda>c. \<not> is_line_terminator c) t,
           g(3 \<mapsto> takeWhile (\<lambda>c. \<not> is_line_terminator c) t)) # ys"
proof -
  show "alts (Group 3 (Plus Dot)) (t, g) \<noteq> [] \<longleftrightarrow> starts (\<lambda>c. \<not> is_line_terminator c) t"
  proof
    assume "alts (Group 3 (Plus Dot)) (t, g) \<noteq> []"
    then obtain y ys where "alts (Group 3 (Plus Dot)) (t, g) = y # ys"
      by (cases "alts (Group 3 (Plus Dot)) (t, g)") auto
    from alts_Group_Plus_first [OF this] show "starts (\<lambda>c. \<not> is_line_terminator c) t"
      by (simp add: in_class_fun)
  next
    assume "starts (\<lambda>c. \<not> is_line_terminator c) t"
    then have "starts (in_class Dot) t" by (simp add: in_class_fun)
    from plus_ends_hd [OF this] show "alts (Group 3 (Plus Dot)) (t, g) \<noteq> []"
      by (auto simp: alts.simps)
  qed
  show "\<exists>ys. alts (Group 3 (Plus Dot)) (t, g)
        = (dropWhile (\<lambda>c. \<not> is_line_terminator c) t,
           g(3 \<mapsto> takeWhile (\<lambda>c. \<not> is_line_terminator c) t)) # ys"
    if "starts (\<lambda>c. \<not> is_line_terminator c) t"
  proof -
    from that have "starts (in_class Dot) t" by (simp add: in_class_fun)
    from plus_ends_hd [OF this] obtain rest
      where "plus_ends Dot t = dropWhile (in_class Dot) t # rest" by blast
    then show ?thesis
      by (simp add: alts.simps take_takeWhile in_class_fun)
  qed
qed

text \<open>The first alternative of the optional parameters captures \<^const>\<open>params_of\<close>.\<close>

lemma params_first:
  assumes "alts params_regex (rest, g) = x # xs" and "g 3 = None"
  shows "snd x 1 = g 1 \<and> snd x 2 = g 2
       \<and> (case snd x 3 of None \<Rightarrow> [] | Some p \<Rightarrow> p) = params_of rest"
proof -
  let ?L = "\<lambda>c. \<not> is_line_terminator c"
  let ?f = "\<lambda>t. alts (Group 3 (Plus Dot)) (t, g)"
  have split: "alts params_regex (rest, g) = concat (map ?f (plus_ends Space rest)) @ [(rest, g)]"
    by (simp add: params_regex_def alts.simps comp_def)
  have P: "\<And>u. starts ?L u \<longleftrightarrow> ?f u \<noteq> []"
    by (simp add: alts_Group_Dot(1))
  show ?thesis
  proof (cases "filter (starts ?L) (plus_ends Space rest)")
    case Nil
    have "concat (map ?f (plus_ends Space rest)) = []"
      by (rule concat_map_none [of "starts ?L" ?f, OF P Nil])
    with split assms(1) have "x = (rest, g)" by simp
    with Nil assms(2) show ?thesis
      by (simp add: params_of_def)
  next
    case (Cons t ts)
    from concat_map_first [of "starts ?L" ?f, OF P Cons] obtain ys
      where ys: "concat (map ?f (plus_ends Space rest)) = ?f t @ ys" by blast
    from filter_eq_ConsD [OF Cons] have "starts ?L t" by auto
    from alts_Group_Dot(2) [OF this, of g] obtain zs
      where "?f t = (dropWhile ?L t, g(3 \<mapsto> takeWhile ?L t)) # zs" by blast
    with ys split assms(1) have "x = (dropWhile ?L t, g(3 \<mapsto> takeWhile ?L t))"
      by simp
    with Cons show ?thesis
      by (simp add: params_of_def)
  qed
qed

lemma params_nonempty: "alts params_regex y \<noteq> []"
  by (cases y) (simp add: params_regex_def alts.simps(5))

text \<open>The grammar determines the parameters: they are \<^const>\<open>params_of\<close> of the text left.\<close>

lemma split_lengths:
  assumes "rest = w @ t" and "rest = v @ u"
  shows "length w + length t = length v + length u"
proof -
  from assms(1) have "length rest = length w + length t" by simp
  moreover from assms(2) have "length rest = length v + length u" by simp
  ultimately show ?thesis by simp
qed

lemma space_suffix:
  assumes "rest = w @ t" and "spaces w"
  shows "t \<in> set (plus_ends Space rest)"
proof -
  from assms(2) have "w \<noteq> []" and "\<forall>c \<in> set w. in_class Space c"
    by (simp_all add: spaces_def)
  then have "t \<in> set (plus_ends Space (w @ t))" by (rule plus_ends_complete)
  with assms(1) show ?thesis by simp
qed

lemma space_suffixD:
  assumes "t \<in> set (plus_ends Space rest)"
  shows "\<exists>v. rest = v @ t \<and> spaces v"
proof -
  from plus_ends_set [OF assms] obtain w
    where "rest = w @ t" "w \<noteq> []" "\<forall>c \<in> set w. in_class Space c" by blast
  then have "rest = w @ t \<and> spaces w" by (simp add: spaces_def)
  then show ?thesis by (rule exI)
qed

lemma parameters_after_shortest:
  assumes t: "t \<in> set (plus_ends Space rest)" "starts (\<lambda>c. \<not> is_line_terminator c) t"
    and least: "\<forall>u \<in> set (plus_ends Space rest).
                  starts (\<lambda>c. \<not> is_line_terminator c) u \<longrightarrow> length t \<le> length u"
  shows "(\<exists>w r. rest = w @ ps @ r \<and> spaces w \<and> ps \<noteq> []
             \<and> (\<forall>c \<in> set ps. \<not> is_line_terminator c)
             \<and> \<not> starts (\<lambda>c. \<not> is_line_terminator c) r
             \<and> (\<forall>w' c' r'. rest = w' @ c' # r' \<and> spaces w' \<and> \<not> is_line_terminator c'
                    \<longrightarrow> length w' \<le> length w))
         \<longleftrightarrow> ps = takeWhile (\<lambda>c. \<not> is_line_terminator c) t"
proof
  assume "\<exists>w r. rest = w @ ps @ r \<and> spaces w \<and> ps \<noteq> []
             \<and> (\<forall>c \<in> set ps. \<not> is_line_terminator c)
             \<and> \<not> starts (\<lambda>c. \<not> is_line_terminator c) r
             \<and> (\<forall>w' c' r'. rest = w' @ c' # r' \<and> spaces w' \<and> \<not> is_line_terminator c'
                    \<longrightarrow> length w' \<le> length w)"
  then obtain w r where wr: "rest = w @ ps @ r" "spaces w" "ps \<noteq> []"
      "\<forall>c \<in> set ps. \<not> is_line_terminator c"
      "\<not> starts (\<lambda>c. \<not> is_line_terminator c) r"
      and longest: "\<forall>w' c' r'. rest = w' @ c' # r' \<and> spaces w' \<and> \<not> is_line_terminator c'
                    \<longrightarrow> length w' \<le> length w"
    by (elim exE conjE)
  from space_suffixD [OF t(1)] obtain v where v: "rest = v @ t" "spaces v"
    by (elim exE conjE)
  from t(2) obtain c' r' where cr: "t = c' # r'" "\<not> is_line_terminator c'"
    by (cases t) simp_all
  from v(1) cr(1) have "rest = v @ c' # r'" by simp
  with longest [rule_format, of v c' r'] v(2) cr(2) have 1: "length v \<le> length w" by simp
  have "ps @ r \<in> set (plus_ends Space rest)"
    using wr(1,2) by (rule space_suffix)
  moreover from wr(3,4) have "starts (\<lambda>c. \<not> is_line_terminator c) (ps @ r)"
    by (cases ps) simp_all
  ultimately have "length t \<le> length (ps @ r)"
    using least [rule_format, of "ps @ r"] by simp
  moreover have "length w + length (ps @ r) = length v + length t"
    using wr(1) v(1) by (rule split_lengths)
  ultimately have 2: "length w \<le> length v" by simp
  from 1 2 have "length w = length v" by simp
  moreover from wr(1) v(1) have "w @ (ps @ r) = v @ t" by simp
  ultimately have "ps @ r = t" by simp
  moreover have "takeWhile (\<lambda>c. \<not> is_line_terminator c) (ps @ r) = ps"
    using wr(3,4,5) by (rule run_append(2))
  ultimately show "ps = takeWhile (\<lambda>c. \<not> is_line_terminator c) t" by simp
next
  assume ps: "ps = takeWhile (\<lambda>c. \<not> is_line_terminator c) t"
  from space_suffixD [OF t(1)] obtain v where v: "rest = v @ t" "spaces v"
    by (elim exE conjE)
  have a: "rest = v @ ps @ dropWhile (\<lambda>c. \<not> is_line_terminator c) t"
    using v(1) ps by simp
  have b: "ps \<noteq> []"
    unfolding ps using t(2) by (rule starts_takeWhile)
  have c: "\<forall>c \<in> set ps. \<not> is_line_terminator c"
    unfolding ps by (auto dest: set_takeWhileD)
  have d: "\<not> starts (\<lambda>c. \<not> is_line_terminator c)
             (dropWhile (\<lambda>c. \<not> is_line_terminator c) t)"
    by (rule not_starts_dropWhile)
  have e: "\<forall>w' c' r'. rest = w' @ c' # r' \<and> spaces w' \<and> \<not> is_line_terminator c'
                    \<longrightarrow> length w' \<le> length v"
  proof (intro allI impI, elim conjE)
    fix w' c' r'
    assume h: "rest = w' @ c' # r'" "spaces w'" "\<not> is_line_terminator c'"
    have "c' # r' \<in> set (plus_ends Space rest)"
      using h(1,2) by (rule space_suffix)
    with h(3) least [rule_format, of "c' # r'"] have "length t \<le> length (c' # r')" by simp
    moreover have "length w' + length (c' # r') = length v + length t"
      using h(1) v(1) by (rule split_lengths)
    ultimately show "length w' \<le> length v" by simp
  qed
  from a v(2) b c d e
  have "rest = v @ ps @ dropWhile (\<lambda>c. \<not> is_line_terminator c) t \<and> spaces v \<and> ps \<noteq> []
             \<and> (\<forall>c \<in> set ps. \<not> is_line_terminator c)
             \<and> \<not> starts (\<lambda>c. \<not> is_line_terminator c)
                   (dropWhile (\<lambda>c. \<not> is_line_terminator c) t)
             \<and> (\<forall>w' c' r'. rest = w' @ c' # r' \<and> spaces w' \<and> \<not> is_line_terminator c'
                    \<longrightarrow> length w' \<le> length v)"
    by (intro conjI)
  then show "\<exists>w r. rest = w @ ps @ r \<and> spaces w \<and> ps \<noteq> []
             \<and> (\<forall>c \<in> set ps. \<not> is_line_terminator c)
             \<and> \<not> starts (\<lambda>c. \<not> is_line_terminator c) r
             \<and> (\<forall>w' c' r'. rest = w' @ c' # r' \<and> spaces w' \<and> \<not> is_line_terminator c'
                    \<longrightarrow> length w' \<le> length w)"
    by (intro exI)
qed

lemma parameters_after_iff: "parameters_after rest ps \<longleftrightarrow> ps = params_of rest"
proof (cases "filter (starts (\<lambda>c. \<not> is_line_terminator c)) (plus_ends Space rest)")
  case Nil
  have "\<not> (\<exists>w c r. rest = w @ c # r \<and> spaces w \<and> \<not> is_line_terminator c)"
  proof
    assume "\<exists>w c r. rest = w @ c # r \<and> spaces w \<and> \<not> is_line_terminator c"
    then obtain w c r where h: "rest = w @ c # r" "spaces w" "\<not> is_line_terminator c"
      by (elim exE conjE)
    have "c # r \<in> set (plus_ends Space rest)"
      using h(1,2) by (rule space_suffix)
    with h(3) have "c # r \<in> set (filter (starts (\<lambda>c. \<not> is_line_terminator c))
        (plus_ends Space rest))"
      by simp
    with Nil show False by simp
  qed
  then have "parameters_after rest ps \<longleftrightarrow> ps = []"
    by (simp only: parameters_after_def if_False)
  also have "\<dots> \<longleftrightarrow> ps = params_of rest"
    using Nil by (simp add: params_of_def)
  finally show ?thesis .
next
  case (Cons t ts)
  from filter_first_shortest [OF plus_ends_sorted Cons]
  have t: "t \<in> set (plus_ends Space rest)" "starts (\<lambda>c. \<not> is_line_terminator c) t"
    and least: "\<forall>u \<in> set (plus_ends Space rest).
                  starts (\<lambda>c. \<not> is_line_terminator c) u \<longrightarrow> length t \<le> length u"
    by simp_all
  from space_suffixD [OF t(1)] obtain v where v: "rest = v @ t" "spaces v"
    by (elim exE conjE)
  from t(2) obtain c r where "t = c # r" "\<not> is_line_terminator c"
    by (cases t) simp_all
  with v have "rest = v @ c # r \<and> spaces v \<and> \<not> is_line_terminator c"
    by simp
  then have "\<exists>w c r. rest = w @ c # r \<and> spaces w \<and> \<not> is_line_terminator c"
    by (intro exI)
  then have "parameters_after rest ps
      \<longleftrightarrow> (\<exists>w r. rest = w @ ps @ r \<and> spaces w \<and> ps \<noteq> []
             \<and> (\<forall>c \<in> set ps. \<not> is_line_terminator c)
             \<and> \<not> starts (\<lambda>c. \<not> is_line_terminator c) r
             \<and> (\<forall>w' c' r'. rest = w' @ c' # r' \<and> spaces w' \<and> \<not> is_line_terminator c'
                    \<longrightarrow> length w' \<le> length w))"
    by (simp only: parameters_after_def if_True)
  also have "\<dots> \<longleftrightarrow> ps = takeWhile (\<lambda>c. \<not> is_line_terminator c) t"
    by (rule parameters_after_shortest [OF t least])
  also have "\<dots> \<longleftrightarrow> ps = params_of rest"
    using Cons by (simp add: params_of_def)
  finally show ?thesis .
qed

lemma directive_at_scan:
  "directive_at s d
     = (\<exists>rest. scan s = Some (module d, command d, rest) \<and> parameters d = params_of rest)"
proof
  assume "directive_at s d"
  then obtain slash w1 w2 w3 rest
    where "s = slash @ ''run'' @ w1 @ ''module'' @ w2 @ module d @ w3 @ command d @ rest"
      "slash = [] \<or> slash = ''/''" "spaces w1" "spaces w2" "spaces w3"
      "word_token (module d)" "word_token (command d)" "\<not> starts is_word rest"
      "parameters_after rest (parameters d)"
    unfolding directive_at_def by blast
  then have "scan s = Some (module d, command d, rest) \<and> parameters d = params_of rest"
    using scan_complete [of s slash w1 w2 "module d" w3 "command d" rest]
      parameters_after_iff [of rest "parameters d"] by simp
  then show "\<exists>rest. scan s = Some (module d, command d, rest)
      \<and> parameters d = params_of rest"
    by (rule exI)
next
  assume "\<exists>rest. scan s = Some (module d, command d, rest) \<and> parameters d = params_of rest"
  then obtain rest where r: "scan s = Some (module d, command d, rest)"
    and p: "parameters d = params_of rest"
    by (elim exE conjE)
  from p have q: "parameters_after rest (parameters d)"
    by (simp add: parameters_after_iff)
  from scan_sound [OF r] obtain slash w1 w2 w3
    where "s = slash @ ''run'' @ w1 @ ''module'' @ w2 @ module d @ w3 @ command d @ rest"
      "slash = [] \<or> slash = ''/''" "spaces w1" "spaces w2" "spaces w3"
      "word_token (module d)" "word_token (command d)" "\<not> starts is_word rest"
    by (elim exE conjE)
  with q show "directive_at s d"
    unfolding directive_at_def by blast
qed

lemma scan_None_iff: "scan s = None \<longleftrightarrow> (\<forall>d. \<not> directive_at s d)"
proof
  assume "scan s = None"
  then show "\<forall>d. \<not> directive_at s d"
    by (simp add: directive_at_scan)
next
  assume a: "\<forall>d. \<not> directive_at s d"
  show "scan s = None"
  proof (cases "scan s")
    case None
    then show ?thesis .
  next
    case (Some x)
    obtain m c rest where x: "x = (m, c, rest)" by (cases x) auto
    have "directive_at s \<lparr>module = m, command = c, parameters = params_of rest\<rparr>"
      using Some x by (simp add: directive_at_scan)
    with a show ?thesis by blast
  qed
qed

lemma exec_None_iff:
  "exec r s = None \<longleftrightarrow> (\<forall>i \<le> length s. alts r (drop i s, Map.empty) = [])"
proof (induction s)
  case Nil
  then show ?case by (simp split: list.splits)
next
  case (Cons a s)
  show ?case
  proof (cases "alts r (a # s, Map.empty)")
    case Nil
    have "(\<forall>i \<le> length (a # s). alts r (drop i (a # s), Map.empty) = [])
        \<longleftrightarrow> (\<forall>i \<le> length s. alts r (drop i s, Map.empty) = [])"
    proof
      assume h: "\<forall>i \<le> length (a # s). alts r (drop i (a # s), Map.empty) = []"
      show "\<forall>i \<le> length s. alts r (drop i s, Map.empty) = []"
      proof (intro allI impI)
        fix i assume "i \<le> length s"
        then have "Suc i \<le> length (a # s)" by simp
        with h have "alts r (drop (Suc i) (a # s), Map.empty) = []" by blast
        then show "alts r (drop i s, Map.empty) = []" by simp
      qed
    next
      assume h: "\<forall>i \<le> length s. alts r (drop i s, Map.empty) = []"
      show "\<forall>i \<le> length (a # s). alts r (drop i (a # s), Map.empty) = []"
      proof (intro allI impI)
        fix i assume "i \<le> length (a # s)"
        with h Nil show "alts r (drop i (a # s), Map.empty) = []"
          by (cases i) simp_all
      qed
    qed
    with Nil Cons.IH show ?thesis by simp
  next
    case (Cons x xs)
    then have "\<not> (\<forall>i \<le> length (a # s). alts r (drop i (a # s), Map.empty) = [])"
      by (auto intro: exI [of _ 0])
    with Cons show ?thesis by simp
  qed
qed

lemma exec_Some:
  "exec r s = Some g \<Longrightarrow>
   \<exists>i \<le> length s. (\<exists>x xs. alts r (drop i s, Map.empty) = x # xs \<and> g = snd x)
      \<and> (\<forall>j < i. alts r (drop j s, Map.empty) = [])"
proof (induction s)
  case Nil
  then show ?case by (auto split: list.splits)
next
  case (Cons a s)
  show ?case
  proof (cases "alts r (a # s, Map.empty)")
    case Nil
    with Cons.prems have "exec r s = Some g" by simp
    with Cons.IH obtain i where i: "i \<le> length s"
      "\<exists>x xs. alts r (drop i s, Map.empty) = x # xs \<and> g = snd x"
      "\<forall>j < i. alts r (drop j s, Map.empty) = []"
      by blast
    have "\<forall>j < Suc i. alts r (drop j (a # s), Map.empty) = []"
    proof (intro allI impI)
      fix j assume "j < Suc i"
      with i(3) Nil show "alts r (drop j (a # s), Map.empty) = []"
        by (cases j) simp_all
    qed
    with i(1,2) have "Suc i \<le> length (a # s)
        \<and> (\<exists>x xs. alts r (drop (Suc i) (a # s), Map.empty) = x # xs \<and> g = snd x)
        \<and> (\<forall>j < Suc i. alts r (drop j (a # s), Map.empty) = [])"
      by simp
    then show ?thesis by blast
  next
    case (Cons x xs)
    with Cons.prems have "g = snd x" by simp
    with Cons have "0 \<le> length (a # s)
        \<and> (\<exists>x xs. alts r (drop 0 (a # s), Map.empty) = x # xs \<and> g = snd x)
        \<and> (\<forall>j < 0. alts r (drop j (a # s), Map.empty) = [])"
      by simp
    then show ?thesis by blast
  qed
qed


lemma alts_directive_empty_iff:
  "alts directive_regex (s, g) = [] \<longleftrightarrow> (\<forall>d. \<not> directive_at s d)"
proof (cases "scan s")
  case None
  then show ?thesis
    using alts_scan_None [OF None, of g] scan_None_iff [of s] by simp
next
  case (Some y)
  obtain m c rest where y: "y = (m, c, rest)" by (cases y) auto
  from alts_scan_Some [of s m c rest g] Some y params_nonempty
  have "alts directive_regex (s, g) \<noteq> []" by auto
  moreover from Some scan_None_iff [of s] have "\<not> (\<forall>d. \<not> directive_at s d)" by simp
  ultimately show ?thesis by simp
qed

lemma token_no_dot: "word_token m \<Longrightarrow> CHR ''.'' \<notin> set m"
  by (auto simp: word_token_def is_word_def)

lemma alts_directive_first:
  assumes "alts directive_regex (s, Map.empty) = x # xs"
  shows "\<exists>m c ps. snd x 1 = Some m \<and> snd x 2 = Some c
           \<and> (case snd x 3 of None \<Rightarrow> [] | Some p \<Rightarrow> p) = ps
           \<and> word_token m
           \<and> directive_at s \<lparr>module = m, command = c, parameters = ps\<rparr>"
proof (cases "scan s")
  case None
  from alts_scan_None [OF None, of Map.empty] assms show ?thesis by simp
next
  case (Some y)
  obtain m c rest where y: "y = (m, c, rest)" by (cases y) auto
  with Some have sc: "scan s = Some (m, c, rest)" by simp
  from alts_scan_Some [OF sc, of Map.empty] obtain ys
    where "alts directive_regex (s, Map.empty)
             = alts params_regex (rest, [1 \<mapsto> m, 2 \<mapsto> c]) @ ys" by blast
  with assms params_nonempty [of "(rest, [1 \<mapsto> m, 2 \<mapsto> c])"]
  obtain zs where "alts params_regex (rest, [1 \<mapsto> m, 2 \<mapsto> c]) = x # zs"
    by (cases "alts params_regex (rest, [1 \<mapsto> m, 2 \<mapsto> c])") auto
  from params_first [OF this]
  have g: "snd x 1 = Some m" "snd x 2 = Some c"
    and p: "(case snd x 3 of None \<Rightarrow> [] | Some p \<Rightarrow> p) = params_of rest"
    by simp_all
  with sc have "directive_at s
      \<lparr>module = m, command = c, parameters = (case snd x 3 of None \<Rightarrow> [] | Some p \<Rightarrow> p)\<rparr>"
    by (auto simp: directive_at_scan)
  moreover from scan_sound [OF sc] have "word_token m" by blast
  ultimately show ?thesis using g by blast
qed

lemma parse_None_iff: "parseModuleCommand input = None \<longleftrightarrow> exec directive_regex input = None"
  by (simp add: parseModuleCommand_def Let_def split: option.splits list.splits)

lemma parse_Some:
  assumes "exec directive_regex input = Some g" and "g 1 = Some m" and "g 2 = Some c"
    and "word_token m"
  shows "parseModuleCommand input
           = Some \<lparr>module = m, command = c,
                   parameters = (case g 3 of None \<Rightarrow> [] | Some p \<Rightarrow> p)\<rparr>"
  using assms token_no_dot [of m]
  by (simp add: parseModuleCommand_def Let_def split: option.splits)

lemma directive_at_unique:
  fixes d d' :: directive
  assumes "directive_at s d" and "directive_at s d'"
  shows "d' = d"
proof -
  from assms(1) obtain rest
    where a: "scan s = Some (module d, command d, rest)" "parameters d = params_of rest"
    unfolding directive_at_scan by blast
  from assms(2) obtain rest'
    where b: "scan s = Some (module d', command d', rest')" "parameters d' = params_of rest'"
    unfolding directive_at_scan by blast
  from a(1) b(1) have "module d' = module d" "command d' = command d" "rest' = rest"
    by simp_all
  with a(2) b(2) show ?thesis
    by (intro directive.equality) simp_all
qed

lemma parse_empty: "parseModuleCommand [] = None"
  by (simp add: parseModuleCommand_def directive_regex_def alts.simps)

lemma dotted_at_has_dot:
  assumes "dotted_at s"
  shows "CHR ''.'' \<in> set s"
proof -
  from assms obtain slash w1 w2 m rest
    where "s = slash @ ''run'' @ w1 @ ''module'' @ w2 @ m @ ''.'' @ rest"
    unfolding dotted_at_def by blast
  then show ?thesis by simp
qed

lemma no_dot_no_dotted:
  assumes "CHR ''.'' \<notin> set s"
  shows "no_dotted s"
  unfolding no_dotted_def
proof (intro allI impI notI)
  fix i assume "dotted_at (drop i s)"
  then have "CHR ''.'' \<in> set (drop i s)" by (rule dotted_at_has_dot)
  then have "CHR ''.'' \<in> set s" by (rule in_set_dropD)
  with assms show False by simp
qed

text \<open>
  The dotted spelling is read by the specification's grammar as module and command. The
  parser does not read it so; \<^const>\<open>no_dotted\<close> leaves such texts out of what follows.
\<close>

lemma spec_parse_dotted:
  "spec_parse ''/run module websearch.search foo''
     = Some \<lparr>module = ''websearch'', command = ''search'', parameters = ''foo''\<rparr>"
  by (simp add: spec_parse_def spec_match_def spec_next_token_def class_defs)

lemma dotted_example: "\<not> no_dotted ''/run module websearch.search foo''"
proof -
  have "''/run module websearch.search foo''
          = ''/'' @ ''run'' @ '' '' @ ''module'' @ '' '' @ ''websearch'' @ ''.'' @ ''search foo''
        \<and> (''/'' = [] \<or> ''/'' = ''/'') \<and> spaces '' '' \<and> spaces '' ''
        \<and> word_token ''websearch''"
    by (simp add: spaces_def word_token_def class_defs)
  then have "dotted_at ''/run module websearch.search foo''"
    unfolding dotted_at_def by (intro exI)
  then have "dotted_at (drop 0 ''/run module websearch.search foo'')" by simp
  then show ?thesis
    unfolding no_dotted_def by blast
qed

lemma parse_time_now: "parseModuleCommand ''/run module time getDate now''
    = Some \<lparr>module = ''time'', command = ''getDate'', parameters = ''now''\<rparr>"
  by (simp add: parseModuleCommand_def directive_regex_def class_defs alts.simps)

text \<open>
  C8, amended. The parser is a function from texts to at most one directive, with no failing
  case; on the empty text it returns \<^verbatim>\<open>null\<close>. On a text without the dotted spelling it
  returns \<^verbatim>\<open>null\<close> exactly when no position of the text begins a match of the grammar
  \<^verbatim>\<open>["/"] "run" "module" <module> <command> [<parameters>]\<close> read as follows: the match may
  begin anywhere in the text; \<^verbatim>\<open>run\<close>, \<^verbatim>\<open>module\<close>, the module and the command are
  separated by whitespace; module and command are longest runs of letters, digits and
  underscores; the parameters begin after the longest whitespace following the command that
  is followed by a character of a line, and go to the end of that line, and are empty when
  there is no such whitespace. When the parser returns a directive, the directive matches
  this grammar at the leftmost position at which anything matches, and it is the only match
  there: module, command and parameters are determined.
\<close>

theorem parseModuleCommand_first_match:
  assumes "no_dotted input"
  shows "parseModuleCommand [] = None
   \<and> (parseModuleCommand input = None
        \<longleftrightarrow> (\<forall>i \<le> length input. \<forall>d. \<not> directive_at (drop i input) d))
   \<and> (\<forall>d. parseModuleCommand input = Some d \<longrightarrow>
        (\<exists>i \<le> length input. directive_at (drop i input) d
           \<and> (\<forall>j < i. \<forall>d'. \<not> directive_at (drop j input) d')
           \<and> (\<forall>d'. directive_at (drop i input) d' \<longrightarrow> d' = d)))"
proof -
  have none: "parseModuleCommand input = None
        \<longleftrightarrow> (\<forall>i \<le> length input. \<forall>d. \<not> directive_at (drop i input) d)"
    by (simp add: parse_None_iff exec_None_iff alts_directive_empty_iff)
  have some: "\<forall>d. parseModuleCommand input = Some d \<longrightarrow>
        (\<exists>i \<le> length input. directive_at (drop i input) d
           \<and> (\<forall>j < i. \<forall>d'. \<not> directive_at (drop j input) d')
           \<and> (\<forall>d'. directive_at (drop i input) d' \<longrightarrow> d' = d))"
  proof (intro allI impI)
    fix d assume d: "parseModuleCommand input = Some d"
    then have "exec directive_regex input \<noteq> None"
      by (simp add: parse_None_iff [symmetric])
    then obtain g where g: "exec directive_regex input = Some g" by blast
    from exec_Some [OF g] obtain i x xs
      where i: "i \<le> length input"
        and x: "alts directive_regex (drop i input, Map.empty) = x # xs" "g = snd x"
        and before: "\<forall>j < i. alts directive_regex (drop j input, Map.empty) = []"
      by blast
    from alts_directive_first [OF x(1)] x(2) obtain m c
      where mc: "g 1 = Some m" "g 2 = Some c" "word_token m"
        and at: "directive_at (drop i input)
          \<lparr>module = m, command = c, parameters = (case g 3 of None \<Rightarrow> [] | Some p \<Rightarrow> p)\<rparr>"
      by auto
    from parse_Some [OF g mc] d
    have deq: "d = \<lparr>module = m, command = c,
        parameters = (case g 3 of None \<Rightarrow> [] | Some p \<Rightarrow> p)\<rparr>" by simp
    from at deq have at': "directive_at (drop i input) d" by simp
    from before have nb: "\<forall>j < i. \<forall>d'. \<not> directive_at (drop j input) d'"
      by (simp add: alts_directive_empty_iff)
    from at' have un: "\<forall>d'. directive_at (drop i input) d' \<longrightarrow> d' = d"
      using directive_at_unique by blast
    from i at' nb un
    show "\<exists>i \<le> length input. directive_at (drop i input) d
           \<and> (\<forall>j < i. \<forall>d'. \<not> directive_at (drop j input) d')
           \<and> (\<forall>d'. directive_at (drop i input) d' \<longrightarrow> d' = d)"
      by blast
  qed
  from parse_empty none some show ?thesis by blast
qed

theorem parseModuleCommand_first_match_witness:
  "no_dotted ''/run module time getDate now''
   \<and> parseModuleCommand ''/run module time getDate now''
       = Some \<lparr>module = ''time'', command = ''getDate'', parameters = ''now''\<rparr>
   \<and> (\<exists>i \<le> length ''/run module time getDate now''.
        directive_at (drop i ''/run module time getDate now'')
          \<lparr>module = ''time'', command = ''getDate'', parameters = ''now''\<rparr>
        \<and> (\<forall>j < i. \<forall>d'. \<not> directive_at (drop j ''/run module time getDate now'') d')
        \<and> (\<forall>d'. directive_at (drop i ''/run module time getDate now'') d'
               \<longrightarrow> d' = \<lparr>module = ''time'', command = ''getDate'', parameters = ''now''\<rparr>))"
proof -
  have nd: "no_dotted ''/run module time getDate now''"
    by (rule no_dot_no_dotted) simp
  from nd parse_time_now
    parseModuleCommand_first_match [OF nd, THEN conjunct2, THEN conjunct2, THEN spec, THEN mp,
      OF parse_time_now]
  show ?thesis by (intro conjI)
qed

text \<open>
  The claim as stated, with the grammar of whitespace-separated tokens, fails on the code. In
  \<^verbatim>\<open>/run module time getDate, please\<close> the command token is \<^verbatim>\<open>getDate,\<close> and the
  parameters are \<^verbatim>\<open>please\<close>; the parser stops the command at the comma and, since no
  whitespace follows it, returns no parameters. In a text of two lines the parameters of the
  grammar are the text that is left; the parser returns what is left of the line.
\<close>

theorem word_tokens_counterexample:
  "spec_parse ''/run module time getDate, please''
     = Some \<lparr>module = ''time'', command = ''getDate,'', parameters = ''please''\<rparr>
   \<and> parseModuleCommand ''/run module time getDate, please''
     = Some \<lparr>module = ''time'', command = ''getDate'', parameters = []\<rparr>
   \<and> spec_parse (''/run module time getDate now'' @ [CHR 0x0A] @ ''thanks'')
     = Some \<lparr>module = ''time'', command = ''getDate'',
             parameters = ''now'' @ [CHR 0x0A] @ ''thanks''\<rparr>
   \<and> parseModuleCommand (''/run module time getDate now'' @ [CHR 0x0A] @ ''thanks'')
     = Some \<lparr>module = ''time'', command = ''getDate'', parameters = ''now''\<rparr>"
proof -
  have a: "spec_parse ''/run module time getDate, please''
     = Some \<lparr>module = ''time'', command = ''getDate,'', parameters = ''please''\<rparr>"
    by (simp add: spec_parse_def spec_match_def spec_next_token_def class_defs)
  have b: "parseModuleCommand ''/run module time getDate, please''
     = Some \<lparr>module = ''time'', command = ''getDate'', parameters = []\<rparr>"
    by (simp add: parseModuleCommand_def directive_regex_def class_defs alts.simps)
  have c: "spec_parse (''/run module time getDate now'' @ [CHR 0x0A] @ ''thanks'')
     = Some \<lparr>module = ''time'', command = ''getDate'',
             parameters = ''now'' @ [CHR 0x0A] @ ''thanks''\<rparr>"
    by (simp add: spec_parse_def spec_match_def spec_next_token_def class_defs)
  have d: "parseModuleCommand (''/run module time getDate now'' @ [CHR 0x0A] @ ''thanks'')
     = Some \<lparr>module = ''time'', command = ''getDate'', parameters = ''now''\<rparr>"
    by (simp add: parseModuleCommand_def directive_regex_def class_defs alts.simps)
  from a b c d show ?thesis by (intro conjI)
qed

end
